theory Spec2Isabelle
  imports Main
begin

section \<open>JavaScript values and strings\<close>

text \<open>
  The service is one JavaScript module (an Express application). Its functions work on
  strings and on the values that a parsed JSON body holds. A string is modelled as a
  list of code units below 256 (the Latin-1 range). A number is a double, and the text
  that \<open>String(n)\<close> prints for it is the platform's (\<open>Number::toString\<close>): a number is
  given by that text, which determines it (\<open>0\<close> for both zeros, \<open>41\<close>, \<open>72.5\<close>,
  \<open>1e+21\<close>, \<open>NaN\<close>); of a payload number the module uses nothing but this text and
  whether the number is truthy. The body of a request is a JSON object, and the render
  payload is flat (a mapping from field names to scalars or arrays), so nested objects
  are not values of the model. Reading a property of a plain object can also reach a
  member inherited from \<open>Object.prototype\<close>: such a member is a native function
  (\<open>JNative\<close>, by name) or, for \<open>__proto__\<close>, the prototype object itself.
\<close>

datatype jsval =
    JUndefined
  | JNull
  | JBool bool
  | JNum string
  | JStr string
  | JArr "jsval list"
  | JNative string
  | JObjectPrototype

text \<open>Truthiness, as \<open>!v\<close>, \<open>a || b\<close> and \<open>c ? a : b\<close> test it.\<close>

fun truthy :: "jsval \<Rightarrow> bool" where
  "truthy JUndefined = False"
| "truthy JNull = False"
| "truthy (JBool b) = b"
| "truthy (JNum s) = (s \<noteq> ''0'' \<and> s \<noteq> ''NaN'')"
| "truthy (JStr s) = (s \<noteq> [])"
| "truthy (JArr xs) = True"
| "truthy (JNative f) = True"
| "truthy JObjectPrototype = True"

text \<open>\<open>a || b\<close>: the left operand when it is truthy, the right one otherwise.\<close>

definition js_or :: "jsval \<Rightarrow> jsval \<Rightarrow> jsval" where
  "js_or a b = (if truthy a then a else b)"

text \<open>\<open>xs.join(sep)\<close> on strings.\<close>

fun join :: "string \<Rightarrow> string list \<Rightarrow> string" where
  "join sep [] = []"
| "join sep [x] = x"
| "join sep (x # y # zs) = x @ sep @ join sep (y # zs)"

text \<open>
  \<open>String(v)\<close>, which is also what a template literal and a property key make of a
  value. A number gives its text. An array is its elements joined by commas, \<open>null\<close>
  and \<open>undefined\<close> elements rendered empty.
\<close>

fun ToString :: "jsval \<Rightarrow> string" where
  "ToString JUndefined = ''undefined''"
| "ToString JNull = ''null''"
| "ToString (JBool b) = (if b then ''true'' else ''false'')"
| "ToString (JNum s) = s"
| "ToString (JStr s) = s"
| "ToString (JArr xs) =
     join '','' (map (\<lambda>v. if v = JUndefined \<or> v = JNull then [] else ToString v) xs)"
| "ToString (JNative f) = ''function '' @ f @ ''() { [native code] }''"
| "ToString JObjectPrototype = ''[object Object]''"

text \<open>\<open>s.padStart(n, c)\<close> with a one-character filler.\<close>

definition padStart :: "nat \<Rightarrow> char \<Rightarrow> string \<Rightarrow> string" where
  "padStart n c s = replicate (n - length s) c @ s"

subsection \<open>Plain objects and property reads\<close>

text \<open>
  A plain object (a parsed JSON object, or an object literal) is a finite map from
  property names to values. \<open>obj[k]\<close> reads an own property first and falls back to
  \<open>Object.prototype\<close>.
\<close>

type_synonym jsobject = "string \<rightharpoonup> jsval"

definition object_prototype_functions :: "string list" where
  "object_prototype_functions =
     [''__defineGetter__'', ''__defineSetter__'', ''hasOwnProperty'', ''__lookupGetter__'',
      ''__lookupSetter__'', ''isPrototypeOf'', ''propertyIsEnumerable'', ''toString'',
      ''valueOf'', ''toLocaleString'']"

definition inherited :: "string \<Rightarrow> jsval" where
  "inherited k =
     (if k = ''constructor'' then JNative ''Object''
      else if k = ''__proto__'' then JObjectPrototype
      else if k \<in> set object_prototype_functions then JNative k
      else JUndefined)"

definition get_prop :: "jsobject \<Rightarrow> string \<Rightarrow> jsval" where
  "get_prop obj k = (case obj k of Some v \<Rightarrow> v | None \<Rightarrow> inherited k)"

subsection \<open>Character classes of the regular expressions\<close>

definition in_range :: "char \<Rightarrow> char \<Rightarrow> char \<Rightarrow> bool" where
  "in_range lo hi c = ((of_char lo :: nat) \<le> of_char c \<and> (of_char c :: nat) \<le> of_char hi)"

text \<open>\<open>[a-z0-9]\<close>, \<open>[a-zA-Z0-9_]\<close> and \<open>\s\<close> (on code units below 256).\<close>

definition is_lower_alnum :: "char \<Rightarrow> bool" where
  "is_lower_alnum c = (in_range CHR ''a'' CHR ''z'' c \<or> in_range CHR ''0'' CHR ''9'' c)"

definition is_word :: "char \<Rightarrow> bool" where
  "is_word c =
     (in_range CHR ''a'' CHR ''z'' c \<or> in_range CHR ''A'' CHR ''Z'' c
      \<or> in_range CHR ''0'' CHR ''9'' c \<or> c = CHR ''_'')"

definition is_space :: "char \<Rightarrow> bool" where
  "is_space c =
     (in_range (CHR 0x09) (CHR 0x0D) c \<or> c = CHR 0x20 \<or> c = CHR 0xA0)"

text \<open>
  \<open>toLowerCase\<close> on one code unit: the ASCII capitals, and the Latin-1 capitals
  \<open>0xC0..0xDE\<close> without the multiplication sign \<open>0xD7\<close>.
\<close>

definition toLowerCase_char :: "char \<Rightarrow> char" where
  "toLowerCase_char c =
     (if in_range CHR ''A'' CHR ''Z'' c \<or> (in_range (CHR 0xC0) (CHR 0xDE) c \<and> c \<noteq> CHR 0xD7)
      then char_of (of_char c + (32::nat)) else c)"

definition toLowerCase :: "string \<Rightarrow> string" where
  "toLowerCase s = map toLowerCase_char s"

section \<open>Path helpers\<close>

text \<open>
  \<open>s.replace(/[^a-z0-9]+/g, "-")\<close>: every maximal run of characters outside
  \<open>[a-z0-9]\<close> becomes one dash.
\<close>

function replace_runs :: "string \<Rightarrow> string" where
  "replace_runs [] = []"
| "replace_runs (c # cs) =
     (if is_lower_alnum c then c # replace_runs cs
      else CHR ''-'' # replace_runs (dropWhile (\<lambda>d. \<not> is_lower_alnum d) cs))"
  by pat_completeness auto
termination
  by (relation "measure length") (auto simp: length_dropWhile_le less_Suc_eq_le)

text \<open>
  \<open>s.replace(/^-|-$/g, "")\<close>: a dash at the very start is removed, then a dash at the
  very end of what follows it.
\<close>

definition strip_edge_dashes :: "string \<Rightarrow> string" where
  "strip_edge_dashes s =
     (let s1 = (case s of [] \<Rightarrow> [] | c # cs \<Rightarrow> if c = CHR ''-'' then cs else s)
      in if s1 \<noteq> [] \<and> last s1 = CHR ''-'' then butlast s1 else s1)"

definition safeSlug :: "jsval \<Rightarrow> string" where
  "safeSlug input =
     (if \<not> truthy input then ''client''
      else take 80 (strip_edge_dashes (replace_runs (toLowerCase (ToString input)))))"

section \<open>Date formatting\<close>

text \<open>
  \<open>new Date(input)\<close> is the platform's: which texts parse, and which local calendar
  day a time falls on, depend on the engine and on the process's time zone. It is a
  parameter of the model: \<open>None\<close> is an invalid date (\<open>getTime()\<close> is \<open>NaN\<close>),
  \<open>Some d\<close> a date with its local fields \<open>getFullYear()\<close>, \<open>getMonth()\<close> (from 0)
  and \<open>getDate()\<close>.
\<close>

text \<open>
  The module applies \<open>String\<close> to numbers of its own only where it reads the fields
  of a \<open>Date\<close> (in \<open>formatDate\<close> and in \<open>nowStamp\<close>): year, month, day of the
  month, hours, minutes, seconds. These are integers of at most six digits, and
  \<open>String\<close> prints such an integer as its decimal numeral, which is what
  \<open>number_to_string\<close> writes out. It is not applied to a payload number.
\<close>

fun nat_digits :: "nat \<Rightarrow> string" where
  "nat_digits n =
     (if n < 10 then [''0123456789'' ! n]
      else nat_digits (n div 10) @ [''0123456789'' ! (n mod 10)])"

declare nat_digits.simps [simp del]

definition number_to_string :: "int \<Rightarrow> string" where
  "number_to_string n =
     (if n < 0 then CHR ''-'' # nat_digits (nat (- n)) else nat_digits (nat n))"

record jsdate =
  getFullYear :: int
  getMonth :: nat
  getDate :: nat

type_synonym date_ctor = "jsval \<Rightarrow> jsdate option"

definition months :: "string list" where
  "months =
     [''January'', ''February'', ''March'', ''April'', ''May'', ''June'',
      ''July'', ''August'', ''September'', ''October'', ''November'', ''December'']"

definition formatDate :: "date_ctor \<Rightarrow> jsval \<Rightarrow> string \<Rightarrow> string" where
  "formatDate new_Date input fmt =
     (if \<not> truthy input then []
      else case new_Date input of
        None \<Rightarrow> ToString input
      | Some dt \<Rightarrow>
          (let DD = padStart 2 CHR ''0'' (number_to_string (int (getDate dt)));
               YYYY = number_to_string (getFullYear dt);
               B = (if getMonth dt < length months then months ! getMonth dt
                    else ''undefined'')
           in if fmt = ''%B %d, %Y'' then B @ '' '' @ DD @ '', '' @ YYYY
              else (let MM = padStart 2 CHR ''0'' (number_to_string (int (getMonth dt) + 1))
                    in YYYY @ ''-'' @ MM @ ''-'' @ DD)))"

section \<open>Template rendering\<close>

text \<open>
  The two regular expressions of \<open>renderTemplate\<close>, each as a matcher anchored at the
  start of its argument: the captures and the text after the match, or \<open>None\<close>. In both
  patterns every repetition is followed by a character outside its class (white space,
  then a word character; word characters, then white space, a bar or a brace; the
  format, then the quote that ends it), so the longest repetition is the only one with
  which the rest of the pattern can match, and a match at a position is unique.
\<close>

fun drop_lit :: "string \<Rightarrow> string \<Rightarrow> string option" where
  "drop_lit [] s = Some s"
| "drop_lit (p # ps) [] = None"
| "drop_lit (p # ps) (c # cs) = (if p = c then drop_lit ps cs else None)"

text \<open>\<open>/{{\s*([a-zA-Z0-9_]+)\s*}}/\<close>\<close>

definition match_plain :: "string \<Rightarrow> (string \<times> string) option" where
  "match_plain s =
     (case drop_lit ''{{'' s of
        None \<Rightarrow> None
      | Some s1 \<Rightarrow>
          (let s2 = dropWhile is_space s1;
               key = takeWhile is_word s2;
               s3 = dropWhile is_space (dropWhile is_word s2)
           in if key = [] then None
              else case drop_lit ''}}'' s3 of
                None \<Rightarrow> None
              | Some rest \<Rightarrow> Some (key, rest)))"

text \<open>\<open>/{{\s*([a-zA-Z0-9_]+)\s*\|\s*date:\s*"([^"]+)"\s*}}/\<close>\<close>

definition match_date :: "string \<Rightarrow> ((string \<times> string) \<times> string) option" where
  "match_date s =
     (case drop_lit ''{{'' s of
        None \<Rightarrow> None
      | Some s1 \<Rightarrow>
          (let s2 = dropWhile is_space s1;
               key = takeWhile is_word s2;
               s3 = dropWhile is_space (dropWhile is_word s2)
           in if key = [] then None
              else case drop_lit ''|'' s3 of
                None \<Rightarrow> None
              | Some s4 \<Rightarrow>
                  (case drop_lit ''date:'' (dropWhile is_space s4) of
                     None \<Rightarrow> None
                   | Some s5 \<Rightarrow>
                       (case drop_lit [CHR 0x22] (dropWhile is_space s5) of
                          None \<Rightarrow> None
                        | Some s6 \<Rightarrow>
                            (let fmt = takeWhile (\<lambda>c. c \<noteq> CHR 0x22) s6;
                                 s7 = dropWhile (\<lambda>c. c \<noteq> CHR 0x22) s6
                             in if fmt = [] then None
                                else case drop_lit [CHR 0x22] s7 of
                                  None \<Rightarrow> None
                                | Some s8 \<Rightarrow>
                                    (case drop_lit ''}}'' (dropWhile is_space s8) of
                                       None \<Rightarrow> None
                                     | Some rest \<Rightarrow> Some ((key, fmt), rest)))))))"

text \<open>
  \<open>s.replace(re, callback)\<close> with a global pattern: the text is scanned from the left;
  where the pattern matches, the callback's result for the captures is put out and the
  scan goes on after the match; elsewhere the character is copied. What the callback
  returns is put out as it is. A match of either pattern above is at least five
  characters long; the test on the lengths only makes the recursion well-founded for
  any matcher.
\<close>

function gsub :: "(string \<Rightarrow> ('m \<times> string) option) \<Rightarrow> ('m \<Rightarrow> string) \<Rightarrow> string \<Rightarrow> string" where
  "gsub m f [] = []"
| "gsub m f (c # cs) =
     (case m (c # cs) of
        None \<Rightarrow> c # gsub m f cs
      | Some (x, rest) \<Rightarrow>
          if length rest \<le> length cs then f x @ gsub m f rest else c # gsub m f cs)"
  by pat_completeness auto
termination
  by (relation "measure (\<lambda>(m, f, s). length s)") auto

text \<open>The first pass of \<open>renderTemplate\<close>: the date filter.\<close>

definition substitute_dates :: "date_ctor \<Rightarrow> string \<Rightarrow> jsobject \<Rightarrow> string" where
  "substitute_dates new_Date html data =
     gsub match_date (\<lambda>(key, fmt). formatDate new_Date (get_prop data key) fmt) html"

text \<open>The second pass: the bare placeholders.\<close>

definition key_text :: "jsobject \<Rightarrow> string \<Rightarrow> string" where
  "key_text data key =
     (let v = get_prop data key
      in if v = JNull \<or> v = JUndefined then [] else ToString v)"

definition substitute_keys :: "string \<Rightarrow> jsobject \<Rightarrow> string" where
  "substitute_keys html data = gsub match_plain (key_text data) html"

definition renderTemplate :: "date_ctor \<Rightarrow> string \<Rightarrow> jsobject \<Rightarrow> string" where
  "renderTemplate new_Date html data =
     (let html1 = substitute_dates new_Date html data
      in substitute_keys html1 data)"

text \<open>
  The same scan with the payload left out: the characters that are copied and the
  captures of the matches, in the order of the text.
\<close>

datatype 'm segment = Copied char | Matched 'm

function segments :: "(string \<Rightarrow> ('m \<times> string) option) \<Rightarrow> string \<Rightarrow> 'm segment list" where
  "segments m [] = []"
| "segments m (c # cs) =
     (case m (c # cs) of
        None \<Rightarrow> Copied c # segments m cs
      | Some (x, rest) \<Rightarrow>
          if length rest \<le> length cs then Matched x # segments m rest
          else Copied c # segments m cs)"
  by pat_completeness auto
termination
  by (relation "measure (\<lambda>(m, s). length s)") auto

fun fill :: "('m \<Rightarrow> string) \<Rightarrow> 'm segment \<Rightarrow> string" where
  "fill f (Copied c) = [c]"
| "fill f (Matched x) = f x"

section \<open>The process and what surrounds it\<close>

text \<open>
  An error is a thrown \<open>Error\<close> object: its name and its message. The handlers report
  \<open>err?.message || String(err)\<close>, and \<open>String(err)\<close> of an error with no message is
  its name.
\<close>

datatype error = JsError string string

fun error_text :: "error \<Rightarrow> string" where
  "error_text (JsError name message) = (if message \<noteq> [] then message else name)"

text \<open>A response body: a JSON object whose leaves are JavaScript values.\<close>

datatype jsonval = JV jsval | JObject "(string \<times> jsonval) list"

record response =
  status :: nat
  body :: jsonval

type_synonym buffer = string

record utc_time =
  getUTCFullYear :: int
  getUTCMonth :: nat
  getUTCDate :: nat
  getUTCHours :: nat
  getUTCMinutes :: nat
  getUTCSeconds :: nat

text \<open>
  What the module takes from outside: the environment variable \<open>BUCKET_NAME\<close> (empty
  when unset), the module's directory, the platform's \<open>Date\<close>, the file system, the
  browser (the outcome of the n-th \<open>chromium.launch\<close>, and the PDF that a fresh context
  and page print for an HTML text), the bucket (\<open>file.save\<close> and \<open>file.getSignedUrl\<close>
  for an object name), the n-th \<open>crypto.randomUUID()\<close> and the clock at its n-th reading.
\<close>

record env =
  BUCKET_NAME :: string
  dirname :: string
  new_Date :: date_ctor
  fs_readFile :: "string \<Rightarrow> error + string"
  fs_invalid_path :: "jsval \<Rightarrow> error"
  chromium_launch :: "nat \<Rightarrow> error option"
  page_pdf :: "string \<Rightarrow> error + buffer"
  file_save :: "string \<Rightarrow> buffer \<Rightarrow> error option"
  getSignedUrl :: "string \<Rightarrow> error + string"
  randomUUID :: "nat \<Rightarrow> string"
  clock :: "nat \<Rightarrow> utc_time"

text \<open>
  The state of the process and of the bucket: the module variable \<open>browserPromise\<close> (the
  launch it caches, by number), how often \<open>chromium.launch\<close> was called, the browsers
  closed, the exit code once the process has exited, the objects saved so far, in the
  order of saving, and how often a UUID was drawn and the clock read.
\<close>

record world =
  browserPromise :: "nat option"
  launches :: nat
  closed :: "nat list"
  exited :: "int option"
  saved :: "(string \<times> buffer) list"
  uuids_drawn :: nat
  clock_reads :: nat

definition nowStamp :: "utc_time \<Rightarrow> string" where
  "nowStamp d =
     (let pad = (\<lambda>n. padStart 2 CHR ''0'' (number_to_string (int n)))
      in number_to_string (getUTCFullYear d) @ pad (getUTCMonth d + 1) @ pad (getUTCDate d)
         @ ''_'' @ pad (getUTCHours d) @ pad (getUTCMinutes d) @ pad (getUTCSeconds d))"

section \<open>The shared browser\<close>

definition getBrowser :: "world \<Rightarrow> nat \<times> world" where
  "getBrowser w =
     (case browserPromise w of
        None \<Rightarrow> (launches w, w\<lparr>browserPromise := Some (launches w), launches := Suc (launches w)\<rparr>)
      | Some b \<Rightarrow> (b, w))"

text \<open>
  \<open>await getBrowser()\<close> throws when the cached launch failed; the context, the page and
  the printing are the browser's.
\<close>

definition htmlToPdfBuffer :: "env \<Rightarrow> world \<Rightarrow> string \<Rightarrow> world \<times> (error + buffer)" where
  "htmlToPdfBuffer e w html =
     (case getBrowser w of
        (b, w1) \<Rightarrow>
          (case chromium_launch e b of
             Some err \<Rightarrow> (w1, Inl err)
           | None \<Rightarrow> (w1, page_pdf e html)))"

text \<open>
  The handler of \<open>SIGTERM\<close> and \<open>SIGINT\<close>: a cached browser whose launch succeeded is
  closed, a failed launch is ignored, and the process exits with code 0.
\<close>

definition shutdown :: "env \<Rightarrow> world \<Rightarrow> world" where
  "shutdown e w =
     (let w1 = (case browserPromise w of
                  None \<Rightarrow> w
                | Some b \<Rightarrow>
                    (case chromium_launch e b of
                       Some err \<Rightarrow> w
                     | None \<Rightarrow> w\<lparr>closed := closed w @ [b]\<rparr>))
      in w1\<lparr>exited := Some 0\<rparr>)"

section \<open>Upload and signed link\<close>

definition uploadPdfAndSign ::
  "env \<Rightarrow> world \<Rightarrow> buffer \<Rightarrow> string \<Rightarrow> world \<times> (error + string \<times> string)" where
  "uploadPdfAndSign e w buf objectName =
     (if BUCKET_NAME e = [] then (w, Inl (JsError ''Error'' ''Missing BUCKET_NAME env var''))
      else case file_save e objectName buf of
        Some err \<Rightarrow> (w, Inl err)
      | None \<Rightarrow>
          (let w1 = w\<lparr>saved := saved w @ [(objectName, buf)]\<rparr>
           in case getSignedUrl e objectName of
                Inl err \<Rightarrow> (w1, Inl err)
              | Inr signedUrl \<Rightarrow>
                  (w1, Inr (''gs://'' @ BUCKET_NAME e @ ''/'' @ objectName, signedUrl))))"

section \<open>The template map\<close>

definition template_keys :: "string list" where
  "template_keys =
     [''meal_first'', ''meal_weekly'', ''workout_first'', ''workout_weekly'',
      ''bundle_first'', ''bundle_weekly'']"

text \<open>
  \<open>TEMPLATE_FILES\<close>: each key with \<open>path.join(__dirname, "templates", key + ".html")\<close>
  (the module's directory, which is not the root, then the two names, joined by slashes).
  \<open>Object.keys(TEMPLATE_FILES)\<close> is \<open>template_keys\<close>, in the order of the literal.
\<close>

definition TEMPLATE_FILES :: "string \<Rightarrow> jsobject" where
  "TEMPLATE_FILES dir =
     map_of (map (\<lambda>k. (k, JStr (dir @ ''/templates/'' @ k @ ''.html''))) template_keys)"

definition resolveTemplateKey :: "jsobject \<Rightarrow> jsobject \<Rightarrow> jsval" where
  "resolveTemplateKey reqBody reqQuery =
     js_or (js_or (js_or (get_prop reqBody ''template_key'') (get_prop reqQuery ''template_key''))
                  (get_prop reqQuery ''template''))
           (JStr [])"

section \<open>Generating one PDF\<close>

text \<open>
  \<open>fs.readFile(tplPath, "utf8")\<close>: a path that is no string (an inherited member of the
  template map) is rejected by the file system before anything is read.
\<close>

definition readFile :: "env \<Rightarrow> jsval \<Rightarrow> error + string" where
  "readFile e p = (case p of JStr path \<Rightarrow> fs_readFile e path | _ \<Rightarrow> Inl (fs_invalid_path e p))"

text \<open>The object that \<open>generateOnePdf\<close> returns, its fields in the order of the literal.\<close>

definition file_object ::
  "jsval \<Rightarrow> jsval \<Rightarrow> string \<Rightarrow> string \<Rightarrow> string \<Rightarrow> string \<Rightarrow> string \<Rightarrow> jsonval" where
  "file_object templateKey jobId bucket fileName objectName gcsPath url =
     JObject
       [(''template_key'', JV templateKey),
        (''job_id'', JV jobId),
        (''bucket'', JV (JStr bucket)),
        (''fileName'', JV (JStr fileName)),
        (''objectName'', JV (JStr objectName)),
        (''gcsPath'', JV (JStr gcsPath)),
        (''url'', JV (JStr url))]"

text \<open>\<open>payload.job_id || crypto.randomUUID()\<close>: a UUID is drawn only when none is given.\<close>

definition job_id_of :: "env \<Rightarrow> world \<Rightarrow> jsobject \<Rightarrow> jsval \<times> world" where
  "job_id_of e w payload =
     (if truthy (get_prop payload ''job_id'') then (get_prop payload ''job_id'', w)
      else (JStr (randomUUID e (uuids_drawn w)), w\<lparr>uuids_drawn := Suc (uuids_drawn w)\<rparr>))"

text \<open>\<open>payload.prefix || `pdfs/${nowStamp()}_${jobId}`\<close>: the clock is read only for the default.\<close>

definition base_prefix_of :: "env \<Rightarrow> world \<Rightarrow> jsobject \<Rightarrow> jsval \<Rightarrow> jsval \<times> world" where
  "base_prefix_of e w payload jobId =
     (if truthy (get_prop payload ''prefix'') then (get_prop payload ''prefix'', w)
      else (JStr (''pdfs/'' @ nowStamp (clock e (clock_reads w)) @ ''_'' @ ToString jobId),
            w\<lparr>clock_reads := Suc (clock_reads w)\<rparr>))"

definition generateOnePdf :: "env \<Rightarrow> world \<Rightarrow> jsval \<Rightarrow> jsobject \<Rightarrow> world \<times> (error + jsonval)" where
  "generateOnePdf e w templateKey payload =
     (let tplPath = get_prop (TEMPLATE_FILES (dirname e)) (ToString templateKey)
      in if \<not> truthy tplPath
         then (w, Inl (JsError ''Error''
                 (''Unknown template_key '' @ [CHR 0x22] @ ToString templateKey @ [CHR 0x22]
                  @ ''. Allowed: '' @ join '', '' template_keys)))
         else case readFile e tplPath of
           Inl err \<Rightarrow> (w, Inl err)
         | Inr htmlRaw \<Rightarrow>
             (let html = renderTemplate (new_Date e) htmlRaw payload
              in case htmlToPdfBuffer e w html of
                   (w1, Inl err) \<Rightarrow> (w1, Inl err)
                 | (w1, Inr pdfBuffer) \<Rightarrow>
                     (case job_id_of e w1 payload of
                        (jobId, w2) \<Rightarrow>
                          (case base_prefix_of e w2 payload jobId of
                             (basePrefix, w3) \<Rightarrow>
                               (let safeName = safeSlug (get_prop payload ''client_name'');
                                    fileName = ToString templateKey @ ''_'' @ safeName @ ''_''
                                               @ ToString jobId @ ''.pdf'';
                                    objectName = ToString basePrefix @ ''/'' @ fileName
                                in case uploadPdfAndSign e w3 pdfBuffer objectName of
                                     (w4, Inl err) \<Rightarrow> (w4, Inl err)
                                   | (w4, Inr (gcsPath, url)) \<Rightarrow>
                                       (w4, Inr (file_object templateKey jobId (BUCKET_NAME e)
                                                   fileName objectName gcsPath url)))))))"

section \<open>Routes\<close>

definition error_response :: "nat \<Rightarrow> string \<Rightarrow> response" where
  "error_response code msg =
     \<lparr>status = code, body = JObject [(''ok'', JV (JBool False)), (''error'', JV (JStr msg))]\<rparr>"

text \<open>\<open>req.body || {}\<close>\<close>

definition body_or_empty :: "jsobject option \<Rightarrow> jsobject" where
  "body_or_empty b = (case b of None \<Rightarrow> Map.empty | Some payload \<Rightarrow> payload)"

definition post_pdf :: "env \<Rightarrow> world \<Rightarrow> jsobject option \<Rightarrow> jsobject \<Rightarrow> world \<times> response" where
  "post_pdf e w req_body req_query =
     (let payload = body_or_empty req_body;
          templateKey = resolveTemplateKey payload req_query
      in if \<not> truthy templateKey
         then (w, error_response 400
                    (''Missing template_key. Allowed: '' @ join '', '' template_keys))
         else case generateOnePdf e w templateKey payload of
           (w1, Inl err) \<Rightarrow> (w1, error_response 500 (error_text err))
         | (w1, Inr file) \<Rightarrow>
             (w1, \<lparr>status = 200, body = JObject [(''ok'', JV (JBool True)), (''file'', file)]\<rparr>))"

text \<open>
  \<open>results[key] = file\<close> on an object whose property names are no array indices (here
  they are template keys): a new name is added last, a name already there keeps its
  place and gets the new value.
\<close>

fun obj_set :: "(string \<times> 'a) list \<Rightarrow> string \<Rightarrow> 'a \<Rightarrow> (string \<times> 'a) list" where
  "obj_set [] k v = [(k, v)]"
| "obj_set ((k', v') # kvs) k v =
     (if k' = k then (k, v) # kvs else (k', v') # obj_set kvs k v)"

text \<open>The loop of \<open>POST /pdfs\<close>: one key after the other, the first error ends it.\<close>

fun generate_all ::
  "env \<Rightarrow> world \<Rightarrow> jsobject \<Rightarrow> jsval list \<Rightarrow> (string \<times> jsonval) list
     \<Rightarrow> world \<times> (error + (string \<times> jsonval) list)" where
  "generate_all e w payload [] results = (w, Inr results)"
| "generate_all e w payload (key # keys) results =
     (case generateOnePdf e w key payload of
        (w1, Inl err) \<Rightarrow> (w1, Inl err)
      | (w1, Inr file) \<Rightarrow> generate_all e w1 payload keys (obj_set results (ToString key) file))"

definition keysToGenerate :: "jsobject \<Rightarrow> jsval list" where
  "keysToGenerate payload =
     (case get_prop payload ''template_keys'' of
        JArr requested \<Rightarrow> if length requested > 0 then requested else map JStr template_keys
      | _ \<Rightarrow> map JStr template_keys)"

definition post_pdfs :: "env \<Rightarrow> world \<Rightarrow> jsobject option \<Rightarrow> world \<times> response" where
  "post_pdfs e w req_body =
     (let payload = body_or_empty req_body
      in case generate_all e w payload (keysToGenerate payload) [] of
           (w1, Inl err) \<Rightarrow> (w1, error_response 500 (error_text err))
         | (w1, Inr results) \<Rightarrow>
             (w1, \<lparr>status = 200,
                   body = JObject
                     [(''ok'', JV (JBool True)),
                      (''job_id'', JV (js_or (get_prop payload ''job_id'') JNull)),
                      (''bucket'', JV (JStr (BUCKET_NAME e))),
                      (''files'', JObject results)]\<rparr>))"

section \<open>The process as a whole\<close>

text \<open>The process starts with no browser, nothing saved and nothing drawn.\<close>

definition initial_world :: world where
  "initial_world =
     \<lparr>browserPromise = None, launches = 0, closed = [], exited = None, saved = [],
      uuids_drawn = 0, clock_reads = 0\<rparr>"

text \<open>
  \<open>getBrowser\<close> has no \<open>await\<close>: each call runs to its end before any other code of the
  process does. However requests overlap, the calls of \<open>getBrowser\<close> happen one after
  another; \<open>getBrowser_calls n\<close> is \<open>n\<close> of them, with what each returned.
\<close>

fun getBrowser_calls :: "nat \<Rightarrow> world \<Rightarrow> nat list \<times> world" where
  "getBrowser_calls 0 w = ([], w)"
| "getBrowser_calls (Suc n) w =
     (case getBrowser w of
        (b, w1) \<Rightarrow> (case getBrowser_calls n w1 of (bs, w2) \<Rightarrow> (b # bs, w2)))"

datatype request =
    PostPdf "jsobject option" jsobject
  | PostPdfs "jsobject option"

fun serve :: "env \<Rightarrow> world \<Rightarrow> request \<Rightarrow> world \<times> response" where
  "serve e w (PostPdf req_body req_query) = post_pdf e w req_body req_query"
| "serve e w (PostPdfs req_body) = post_pdfs e w req_body"

text \<open>Requests served one after the other, with their responses.\<close>

fun serve_all :: "env \<Rightarrow> world \<Rightarrow> request list \<Rightarrow> world \<times> response list" where
  "serve_all e w [] = (w, [])"
| "serve_all e w (r # rs) =
     (case serve e w r of
        (w1, res) \<Rightarrow> (case serve_all e w1 rs of (w2, ress) \<Rightarrow> (w2, res # ress)))"

text \<open>
  The state of the browser that the process keeps to: nothing launched and nothing
  cached, or one launch, the first, and that one cached.
\<close>

definition launched_once :: "world \<Rightarrow> bool" where
  "launched_once w =
     ((browserPromise w = None \<and> launches w = 0) \<or> (browserPromise w = Some 0 \<and> launches w = 1))"

subsection \<open>Reading a response\<close>

fun fields :: "jsonval \<Rightarrow> (string \<times> jsonval) list" where
  "fields (JObject kvs) = kvs"
| "fields (JV v) = []"

definition field_names :: "jsonval \<Rightarrow> string list" where
  "field_names j = map fst (fields j)"

definition field :: "jsonval \<Rightarrow> string \<Rightarrow> jsonval option" where
  "field j k = map_of (fields j) k"

subsection \<open>An environment in which everything works\<close>

text \<open>
  A process in the UTC time zone, with a bucket, one template text for every path, a
  browser that starts and prints, and a bucket that saves and signs.
\<close>

definition utc_Date :: date_ctor where
  "utc_Date v =
     (if v = JStr ''2024-03-05'' then Some \<lparr>getFullYear = 2024, getMonth = 2, getDate = 5\<rparr>
      else if v = JNum ''0'' then Some \<lparr>getFullYear = 1970, getMonth = 0, getDate = 1\<rparr>
      else if v = JStr ''0099-12-31'' then Some \<lparr>getFullYear = 99, getMonth = 11, getDate = 31\<rparr>
      else None)"

definition working_env :: env where
  "working_env =
     \<lparr>BUCKET_NAME = ''bucket'',
      dirname = ''/app'',
      new_Date = utc_Date,
      fs_readFile = (\<lambda>path. Inr ''<h1>{{client_name}}</h1>''),
      fs_invalid_path = (\<lambda>p. JsError ''TypeError'' ''The path argument must be of type string''),
      chromium_launch = (\<lambda>n. None),
      page_pdf = (\<lambda>html. Inr (''%PDF '' @ html)),
      file_save = (\<lambda>objectName buf. None),
      getSignedUrl = (\<lambda>objectName. Inr (''https://signed/'' @ objectName)),
      randomUUID = (\<lambda>n. ''uuid'' @ number_to_string (int n)),
      clock = (\<lambda>n. \<lparr>getUTCFullYear = 2024, getUTCMonth = 0, getUTCDate = 2,
                     getUTCHours = 3, getUTCMinutes = 4, getUTCSeconds = n\<rparr>)\<rparr>"

text \<open>The same with \<open>BUCKET_NAME\<close> unset.\<close>

definition no_bucket_env :: env where
  "no_bucket_env = working_env\<lparr>BUCKET_NAME := []\<rparr>"

section \<open>The name segment of a file name\<close>






section \<open>The scans of \<open>renderTemplate\<close>\<close>

lemma drop_lit_Some: "drop_lit p s = Some r \<longleftrightarrow> s = p @ r"
  by (induction p s rule: drop_lit.induct) auto

lemma drop_lit_append [simp]: "drop_lit p (p @ r) = Some r"
  by (simp add: drop_lit_Some)

lemma word_not_space: "is_word c \<Longrightarrow> \<not> is_space c"
  by (auto simp: is_word_def is_space_def in_range_def)

lemma brace_classes [simp]:
  "\<not> is_space CHR ''{''" "\<not> is_word CHR ''{''" "\<not> is_space CHR ''}''" "\<not> is_word CHR ''}''"
  "\<not> is_space CHR ''|''" "\<not> is_word CHR ''|''"
  by (simp_all add: is_word_def is_space_def in_range_def)

lemma takeWhile_stop: "\<forall>x\<in>set xs. P x \<Longrightarrow> \<not> P y \<Longrightarrow> takeWhile P (xs @ y # ys) = xs"
  by (induction xs) simp_all

lemma dropWhile_stop: "\<forall>x\<in>set xs. P x \<Longrightarrow> \<not> P y \<Longrightarrow> dropWhile P (xs @ y # ys) = y # ys"
  by (induction xs) simp_all

lemma takeWhile_before: "\<not> P y \<Longrightarrow> takeWhile P (xs @ y # ys) = takeWhile P xs"
  by (induction xs) simp_all

lemma dropWhile_before: "\<not> P y \<Longrightarrow> dropWhile P (xs @ y # ys) = dropWhile P xs @ y # ys"
  by (induction xs) simp_all

lemma match_plain_shorter: "match_plain s = Some (k, r) \<Longrightarrow> length r < length s"
proof -
  assume a: "match_plain s = Some (k, r)"
  then obtain s1 where s1: "s = ''{{'' @ s1"
    by (auto simp: match_plain_def drop_lit_Some split: option.splits)
  from a s1 have "dropWhile is_space (dropWhile is_word (dropWhile is_space s1)) = ''}}'' @ r"
    by (auto simp: match_plain_def Let_def drop_lit_Some split: option.splits if_splits)
  then have "length (''}}'' @ r) \<le> length s1"
    by (metis length_dropWhile_le order_trans)
  with s1 show ?thesis by simp
qed

lemma gsub_plain_Some:
  "match_plain (c # cs) = Some (k, r) \<Longrightarrow> gsub match_plain f (c # cs) = f k @ gsub match_plain f r"
  using match_plain_shorter [of "c # cs" k r] by simp

lemma gsub_plain_None:
  "match_plain (c # cs) = None \<Longrightarrow> gsub match_plain f (c # cs) = c # gsub match_plain f cs"
  by simp

lemma match_plain_placeholder:
  assumes "key \<noteq> []" "list_all is_word key" "list_all is_space ws1" "list_all is_space ws2"
  shows "match_plain (''{{'' @ ws1 @ key @ ws2 @ ''}}'' @ rest) = Some (key, rest)"
proof -
  obtain k ks where key: "key = k # ks" using assms(1) by (cases key) auto
  have k: "\<not> is_space k" using assms(2) key by (simp add: word_not_space)
  have 1: "dropWhile is_space (ws1 @ key @ ws2 @ ''}}'' @ rest) = key @ ws2 @ ''}}'' @ rest"
    using dropWhile_stop [of ws1 is_space k "ks @ ws2 @ ''}}'' @ rest"] assms(3) k key
    by (simp add: list_all_iff)
  have w: "\<forall>x\<in>set ws2. \<not> is_word x" using assms(4) word_not_space by (auto simp: list_all_iff)
  have 2: "takeWhile is_word (key @ ws2 @ ''}}'' @ rest) = key"
  proof (cases ws2)
    case Nil
    then show ?thesis using takeWhile_stop [of key is_word "CHR ''}''" "''}'' @ rest"] assms(2)
      by (simp add: list_all_iff)
  next
    case (Cons a as)
    then show ?thesis using takeWhile_stop [of key is_word a "as @ ''}}'' @ rest"] assms(2) w
      by (simp add: list_all_iff)
  qed
  have 3: "dropWhile is_word (key @ ws2 @ ''}}'' @ rest) = ws2 @ ''}}'' @ rest"
  proof (cases ws2)
    case Nil
    then show ?thesis using dropWhile_stop [of key is_word "CHR ''}''" "''}'' @ rest"] assms(2)
      by (simp add: list_all_iff)
  next
    case (Cons a as)
    then show ?thesis using dropWhile_stop [of key is_word a "as @ ''}}'' @ rest"] assms(2) w
      by (simp add: list_all_iff)
  qed
  have 4: "dropWhile is_space (ws2 @ ''}}'' @ rest) = ''}}'' @ rest"
    using dropWhile_stop [of ws2 is_space "CHR ''}''" "''}'' @ rest"] assms(4)
    by (simp add: list_all_iff)
  have d: "drop_lit ''{{'' (''{{'' @ ws1 @ key @ ws2 @ ''}}'' @ rest) = Some (ws1 @ key @ ws2 @ ''}}'' @ rest)"
    by (rule drop_lit_append)
  have d2: "drop_lit ''}}'' (''}}'' @ rest) = Some rest"
    by (rule drop_lit_append)
  show ?thesis
    unfolding match_plain_def d using assms(1) by (simp only: option.case Let_def 1 2 3 4 d2 if_False)
qed


lemma drop_close_before:
  "drop_lit ''}}'' (u @ CHR ''{'' # t) = map_option (\<lambda>r. r @ CHR ''{'' # t) (drop_lit ''}}'' u)"
proof (cases u)
  case Nil
  then show ?thesis by simp
next
  case (Cons a as)
  then show ?thesis by (cases as) auto
qed

lemma match_plain_before:
  assumes "s \<noteq> []"
  shows "match_plain (s @ ''{{'' @ t) = map_option (\<lambda>(k, r). (k, r @ ''{{'' @ t)) (match_plain s)"
proof (cases s)
  case Nil
  with assms show ?thesis by simp
next
  case (Cons a as)
  show ?thesis
  proof (cases as)
    case Nil
    show ?thesis
    proof (cases "a = CHR ''{''")
      case True
      have "s = ''{''" using True Nil \<open>s = a # as\<close> by simp
      then show ?thesis by (simp add: match_plain_def)
    next
      case False
      then show ?thesis using Nil \<open>s = a # as\<close> by (simp add: match_plain_def)
    qed
  next
    case (Cons b bs)
    show ?thesis
    proof (cases "a = CHR ''{'' \<and> b = CHR ''{''")
      case False
      with \<open>s = a # as\<close> Cons show ?thesis by (auto simp: match_plain_def)
    next
      case True
      let ?t = "CHR ''{'' # CHR ''{'' # t"
      have s: "s = ''{{'' @ bs" using True \<open>s = a # as\<close> Cons by simp
      have 1: "dropWhile is_space (bs @ ?t) = dropWhile is_space bs @ ?t"
        by (rule dropWhile_before) simp
      have 2: "takeWhile is_word (dropWhile is_space bs @ ?t) = takeWhile is_word (dropWhile is_space bs)"
        by (rule takeWhile_before) simp
      have 3: "dropWhile is_word (dropWhile is_space bs @ ?t) = dropWhile is_word (dropWhile is_space bs) @ ?t"
        by (rule dropWhile_before) simp
      have 4: "dropWhile is_space (dropWhile is_word (dropWhile is_space bs) @ ?t)
                 = dropWhile is_space (dropWhile is_word (dropWhile is_space bs)) @ ?t"
        by (rule dropWhile_before) simp
      show ?thesis
        unfolding s
        by (simp add: match_plain_def 1 2 3 4 drop_close_before Let_def split: option.splits)
    qed
  qed
qed

lemma gsub_plain_placeholder:
  assumes "key \<noteq> []" "list_all is_word key" "list_all is_space ws1" "list_all is_space ws2"
  shows "gsub match_plain f (pre @ ''{{'' @ ws1 @ key @ ws2 @ ''}}'' @ rest)
         = gsub match_plain f pre @ f key @ gsub match_plain f rest"
proof (induction "length pre" arbitrary: pre rule: less_induct)
  case less
  let ?t = "ws1 @ key @ ws2 @ ''}}'' @ rest"
  show ?case
  proof (cases pre)
    case Nil
    have "match_plain (''{{'' @ ?t) = Some (key, rest)"
      using match_plain_placeholder [OF assms] .
    then have "gsub match_plain f (''{{'' @ ?t) = f key @ gsub match_plain f rest"
      using gsub_plain_Some [of "CHR ''{''" "CHR ''{'' # ?t" key rest f] by simp
    with Nil show ?thesis by simp
  next
    case (Cons c cs)
    have m: "match_plain ((c # cs) @ ''{{'' @ ?t)
             = map_option (\<lambda>(k, r). (k, r @ ''{{'' @ ?t)) (match_plain (c # cs))"
      by (rule match_plain_before) simp
    show ?thesis
    proof (cases "match_plain (c # cs)")
      case None
      with m have n: "match_plain (c # (cs @ ''{{'' @ ?t)) = None" by simp
      have "gsub match_plain f (cs @ ''{{'' @ ?t) = gsub match_plain f cs @ f key @ gsub match_plain f rest"
        using less [of cs] Cons by simp
      then show ?thesis
        using gsub_plain_None [OF n, of f] gsub_plain_None [OF None, of f] Cons by simp
    next
      case (Some a)
      obtain k r where a: "a = (k, r)" by (cases a)
      with Some m have n: "match_plain (c # (cs @ ''{{'' @ ?t)) = Some (k, r @ ''{{'' @ ?t)" by simp
      have "length r < length pre"
        using match_plain_shorter [of "c # cs" k r] Some a Cons by simp
      then have "gsub match_plain f (r @ ''{{'' @ ?t) = gsub match_plain f r @ f key @ gsub match_plain f rest"
        using less [of r] by simp
      then show ?thesis
        using gsub_plain_Some [OF n, of f] gsub_plain_Some [of c cs k r f] Some a Cons by simp
    qed
  qed
qed


lemma quote_classes [simp]: "\<not> is_space (CHR 0x22)" "\<not> is_word (CHR 0x22)"
  "\<not> is_space CHR ''d''" 
  by (simp_all add: is_word_def is_space_def in_range_def)

lemma match_date_open: "match_date s = Some x \<Longrightarrow> \<exists>t. s = ''{{'' @ t"
  by (auto simp: match_date_def drop_lit_Some split: option.splits)

lemma match_date_shorter:
  assumes "match_date s = Some (x, r)"
  shows "length r < length s"
proof -
  from assms obtain s1 s4 s5 s6 s8 where
    s1: "s = ''{{'' @ s1" and
    s4: "dropWhile is_space (dropWhile is_word (dropWhile is_space s1)) = ''|'' @ s4" and
    s5: "dropWhile is_space s4 = ''date:'' @ s5" and
    s6: "dropWhile is_space s5 = [CHR 0x22] @ s6" and
    s8: "dropWhile (\<lambda>c. c \<noteq> CHR 0x22) s6 = [CHR 0x22] @ s8" and
    r: "dropWhile is_space s8 = ''}}'' @ r"
    by (auto simp: match_date_def Let_def drop_lit_Some split: option.splits if_splits)
  have "length r \<le> length s8" using r length_dropWhile_le [of is_space s8] by simp
  also have "\<dots> \<le> length s6" using s8 length_dropWhile_le [of "\<lambda>c. c \<noteq> CHR 0x22" s6] by simp
  also have "\<dots> \<le> length s5" using s6 length_dropWhile_le [of is_space s5] by simp
  also have "\<dots> \<le> length s4" using s5 length_dropWhile_le [of is_space s4] by simp
  also have "\<dots> \<le> length s1"
  proof -
    have "length (''|'' @ s4) \<le> length s1"
      using s4 by (metis length_dropWhile_le order_trans)
    then show ?thesis by simp
  qed
  finally show ?thesis using s1 by simp
qed

lemma gsub_date_Some:
  "match_date (c # cs) = Some (x, r) \<Longrightarrow> gsub match_date f (c # cs) = f x @ gsub match_date f r"
  using match_date_shorter [of "c # cs" x r] by simp

lemma gsub_date_copy:
  "CHR ''{'' \<notin> set pre \<Longrightarrow> gsub match_date f (pre @ s) = pre @ gsub match_date f s"
proof (induction pre)
  case Nil
  then show ?case by simp
next
  case (Cons c cs)
  have "match_date (c # cs @ s) = None"
  proof (cases "match_date (c # cs @ s)")
    case None
    then show ?thesis .
  next
    case (Some x)
    then obtain t where "c # cs @ s = ''{{'' @ t" using match_date_open by blast
    with Cons.prems show ?thesis by simp
  qed
  with Cons show ?case by simp
qed

lemma spaces_then:
  "list_all is_space ws \<Longrightarrow> \<not> is_space y \<Longrightarrow> dropWhile is_space (ws @ y # ys) = y # ys"
  by (simp add: dropWhile_stop list_all_iff)

lemma match_date_placeholder:
  assumes "key \<noteq> []" "list_all is_word key" "fmt \<noteq> []" "CHR 0x22 \<notin> set fmt"
    "list_all is_space ws1" "list_all is_space ws2" "list_all is_space ws3"
    "list_all is_space ws4" "list_all is_space ws5"
  shows "match_date (''{{'' @ ws1 @ key @ ws2 @ ''|'' @ ws3 @ ''date:'' @ ws4 @ [CHR 0x22] @ fmt
                      @ [CHR 0x22] @ ws5 @ ''}}'' @ rest) = Some ((key, fmt), rest)"
proof -
  let ?t5 = "ws5 @ ''}}'' @ rest"
  let ?t4 = "fmt @ [CHR 0x22] @ ?t5"
  let ?t3 = "ws4 @ [CHR 0x22] @ ?t4"
  let ?t2 = "ws3 @ ''date:'' @ ?t3"
  let ?t1 = "ws2 @ ''|'' @ ?t2"
  obtain k ks where key: "key = k # ks" using assms(1) by (cases key) auto
  have k: "\<not> is_space k" using assms(2) key by (simp add: word_not_space)
  have 1: "dropWhile is_space (ws1 @ key @ ?t1) = key @ ?t1"
    using spaces_then [OF assms(5) k, of "ks @ ?t1"] key by simp
  have w: "\<forall>x\<in>set ws2. \<not> is_word x" using assms(6) word_not_space by (auto simp: list_all_iff)
  have kw: "\<forall>x\<in>set key. is_word x" using assms(2) by (simp add: list_all_iff)
  have 2: "takeWhile is_word (key @ ?t1) = key \<and> dropWhile is_word (key @ ?t1) = ?t1"
  proof (cases ws2)
    case Nil
    then show ?thesis
      using takeWhile_stop [OF kw, of "CHR ''|''" ?t2] dropWhile_stop [OF kw, of "CHR ''|''" ?t2]
      by simp
  next
    case (Cons a as)
    then show ?thesis
      using takeWhile_stop [OF kw, of a "as @ ''|'' @ ?t2"] dropWhile_stop [OF kw, of a "as @ ''|'' @ ?t2"] w
      by simp
  qed
  have 3: "dropWhile is_space ?t1 = ''|'' @ ?t2"
    using spaces_then [OF assms(6), of "CHR ''|''" ?t2] by simp
  have 4: "dropWhile is_space ?t2 = ''date:'' @ ?t3"
    using spaces_then [OF assms(7), of "CHR ''d''" "''ate:'' @ ?t3"] by simp
  have 5: "dropWhile is_space ?t3 = [CHR 0x22] @ ?t4"
    using spaces_then [OF assms(8), of "CHR 0x22" ?t4] by simp
  have f: "\<forall>x\<in>set fmt. x \<noteq> CHR 0x22" using assms(4) by auto
  have 6: "takeWhile (\<lambda>c. c \<noteq> CHR 0x22) ?t4 = fmt \<and> dropWhile (\<lambda>c. c \<noteq> CHR 0x22) ?t4 = [CHR 0x22] @ ?t5"
    using takeWhile_stop [OF f, of "CHR 0x22" ?t5] dropWhile_stop [OF f, of "CHR 0x22" ?t5] by simp
  have 7: "dropWhile is_space ?t5 = ''}}'' @ rest"
    using spaces_then [OF assms(9), of "CHR ''}''" "''}'' @ rest"] by simp
  have d0: "drop_lit ''{{'' (''{{'' @ ws1 @ key @ ?t1) = Some (ws1 @ key @ ?t1)"
    by (rule drop_lit_append)
  have d1: "drop_lit ''|'' (''|'' @ ?t2) = Some ?t2" by (rule drop_lit_append)
  have d2: "drop_lit ''date:'' (''date:'' @ ?t3) = Some ?t3" by (rule drop_lit_append)
  have d3: "drop_lit [CHR 0x22] ([CHR 0x22] @ ?t4) = Some ?t4" by (rule drop_lit_append)
  have d4: "drop_lit [CHR 0x22] ([CHR 0x22] @ ?t5) = Some ?t5" by (rule drop_lit_append)
  have d5: "drop_lit ''}}'' (''}}'' @ rest) = Some rest" by (rule drop_lit_append)
  show ?thesis
    unfolding match_date_def d0 using assms(1,3)
    by (simp only: option.case Let_def 1 2 3 4 5 6 7 d1 d2 d3 d4 d5 if_False)
qed

lemma gsub_segments: "gsub m f s = concat (map (fill f) (segments m s))"
  by (induction m s rule: segments.induct) (auto split: option.splits)

text \<open>
  C2. The second pass replaces a bare placeholder, with any white space around the field
  name, by \<open>String(payload[key])\<close>, and by the empty string when \<open>payload[key]\<close> is
  \<open>null\<close> or \<open>undefined\<close>; this holds for a placeholder anywhere in a template, the
  text before it and the text after it being substituted on their own, and for every
  value: a string is put in as it is, a number as the text that \<open>String\<close> prints for
  it, \<open>false\<close> and \<open>0\<close> as \<open>false\<close> and \<open>0\<close>.
\<close>

theorem substitute_keys_placeholder:
  assumes "key \<noteq> []" "list_all is_word key" "list_all is_space ws1" "list_all is_space ws2"
  shows "substitute_keys (pre @ ''{{'' @ ws1 @ key @ ws2 @ ''}}'' @ rest) data
         = substitute_keys pre data
           @ (if get_prop data key = JNull \<or> get_prop data key = JUndefined then []
              else ToString (get_prop data key))
           @ substitute_keys rest data"
  unfolding substitute_keys_def
  using gsub_plain_placeholder [OF assms, of "key_text data" pre rest]
  by (simp add: key_text_def Let_def)

text \<open>
  The spec's example: \<open>{{name}}\<close> with \<open>{name: "Ann"}\<close> gives \<open>Ann\<close>, and the empty
  string when \<open>name\<close> is absent. The numbers \<open>1e21\<close> and \<open>72.5\<close> are put in as
  \<open>1e+21\<close> and \<open>72.5\<close>.
\<close>

theorem substitute_keys_placeholder_witness:
  "substitute_keys ''{{name}}'' [''name'' \<mapsto> JStr ''Ann''] = ''Ann''
   \<and> substitute_keys ''{{name}}'' Map.empty = []
   \<and> substitute_keys ''{{n}}'' [''n'' \<mapsto> JNum ''1e+21''] = ''1e+21''
   \<and> substitute_keys ''{{n}}'' [''n'' \<mapsto> JNum ''72.5''] = ''72.5''
   \<and> renderTemplate utc_Date ''<b>{{ name }}</b> {{n}}{{x}}''
         [''name'' \<mapsto> JStr ''Ann'', ''n'' \<mapsto> JNum ''41'', ''x'' \<mapsto> JNull]
       = ''<b>Ann</b> 41''"
proof -
  have h1: "''name'' \<noteq> []" "''n'' \<noteq> []" by simp_all
  have h2: "list_all is_word ''name''" "list_all is_word ''n''"
    by (simp_all add: is_word_def in_range_def)
  have h3: "list_all is_space []" by simp
  note a = substitute_keys_placeholder
    [of "''name''" "[]" "[]" "[]" "[]" "[''name'' \<mapsto> JStr ''Ann'']", OF h1(1) h2(1) h3 h3]
  note b = substitute_keys_placeholder
    [of "''name''" "[]" "[]" "[]" "[]" Map.empty, OF h1(1) h2(1) h3 h3]
  note c = substitute_keys_placeholder
    [of "''n''" "[]" "[]" "[]" "[]" "[''n'' \<mapsto> JNum ''1e+21'']", OF h1(2) h2(2) h3 h3]
  note d = substitute_keys_placeholder
    [of "''n''" "[]" "[]" "[]" "[]" "[''n'' \<mapsto> JNum ''72.5'']", OF h1(2) h2(2) h3 h3]
  have r: "renderTemplate utc_Date ''<b>{{ name }}</b> {{n}}{{x}}''
             [''name'' \<mapsto> JStr ''Ann'', ''n'' \<mapsto> JNum ''41'', ''x'' \<mapsto> JNull] = ''<b>Ann</b> 41''"
    by code_simp
  have e: "substitute_keys [] x = []" for x by (simp add: substitute_keys_def)
  show ?thesis using a b c d r
    by (simp add: e get_prop_def inherited_def object_prototype_functions_def)
qed

section \<open>The date filter\<close>

lemma nat_digits_length_small: "n < 10 \<Longrightarrow> length (nat_digits n) = 1"
  by (subst nat_digits.simps) simp

lemma nat_digits_length_step: "10 \<le> n \<Longrightarrow> length (nat_digits n) = Suc (length (nat_digits (n div 10)))"
  by (subst nat_digits.simps) simp

lemma four_digit_year:
  assumes "1000 \<le> y" "y \<le> 9999"
  shows "length (number_to_string y) = 4"
proof -
  let ?n = "nat y"
  have n: "1000 \<le> ?n" "?n \<le> 9999" using assms by auto
  have "length (nat_digits ?n) = Suc (length (nat_digits (?n div 10)))"
    using n by (intro nat_digits_length_step) simp
  also have "length (nat_digits (?n div 10)) = Suc (length (nat_digits (?n div 10 div 10)))"
    using n by (intro nat_digits_length_step) simp
  also have "length (nat_digits (?n div 10 div 10)) = Suc (length (nat_digits (?n div 10 div 10 div 10)))"
    using n by (intro nat_digits_length_step) simp
  also have "length (nat_digits (?n div 10 div 10 div 10)) = 1"
    using n by (intro nat_digits_length_small) simp
  finally show ?thesis using assms by (simp add: number_to_string_def)
qed

lemma two_digit_day:
  assumes "d < 100"
  shows "length (padStart 2 CHR ''0'' (number_to_string (int d))) = 2"
proof (cases "d < 10")
  case True
  then show ?thesis by (simp add: padStart_def number_to_string_def nat_digits_length_small)
next
  case False
  then have "length (nat_digits d) = Suc (length (nat_digits (d div 10)))"
    by (intro nat_digits_length_step) simp
  also have "length (nat_digits (d div 10)) = 1"
    using assms by (intro nat_digits_length_small) simp
  finally show ?thesis by (simp add: padStart_def number_to_string_def)
qed

text \<open>
  C3, as the code has it. A filtered placeholder (white space allowed around the field
  name, the bar, \<open>date:\<close> and the quoted format) is a match of the first pattern, and
  after text that holds no opening brace it is replaced by \<open>formatDate(payload[key], fmt)\<close>;
  in any template, every match that the scan finds is replaced by that. \<open>formatDate\<close>
  gives: the empty string when the value is falsy (absent, \<open>null\<close>, empty, \<open>0\<close>,
  \<open>false\<close>); \<open>String(value)\<close> when the value does not parse as a date; for the format
  \<open>%B %d, %Y\<close> the month name, the day of the month padded to two digits and the year
  in decimal; for any other format year, month and day joined by dashes, month and day
  padded to two digits. The year has four digits when it lies between 1000 and 9999.
\<close>

theorem date_filter_substitution:
  assumes "key \<noteq> []" "list_all is_word key" "fmt \<noteq> []" "CHR 0x22 \<notin> set fmt"
    "list_all is_space ws1" "list_all is_space ws2" "list_all is_space ws3"
    "list_all is_space ws4" "list_all is_space ws5"
    "CHR ''{'' \<notin> set pre"
  shows "match_date (''{{'' @ ws1 @ key @ ws2 @ ''|'' @ ws3 @ ''date:'' @ ws4 @ [CHR 0x22] @ fmt
                      @ [CHR 0x22] @ ws5 @ ''}}'' @ rest) = Some ((key, fmt), rest)
         \<and> substitute_dates to_date
             (pre @ ''{{'' @ ws1 @ key @ ws2 @ ''|'' @ ws3 @ ''date:'' @ ws4 @ [CHR 0x22] @ fmt
                  @ [CHR 0x22] @ ws5 @ ''}}'' @ rest) data
           = pre @ formatDate to_date (get_prop data key) fmt @ substitute_dates to_date rest data
         \<and> (\<forall>html. substitute_dates to_date html data
                = concat (map (fill (\<lambda>(k, f). formatDate to_date (get_prop data k) f))
                              (segments match_date html)))
         \<and> (\<forall>v f. \<not> truthy v \<longrightarrow> formatDate to_date v f = [])
         \<and> (\<forall>v f. truthy v \<and> to_date v = None \<longrightarrow> formatDate to_date v f = ToString v)
         \<and> (\<forall>v dt. truthy v \<and> to_date v = Some dt \<and> getMonth dt < 12 \<longrightarrow>
               formatDate to_date v ''%B %d, %Y''
                 = months ! getMonth dt @ '' ''
                   @ padStart 2 CHR ''0'' (number_to_string (int (getDate dt)))
                   @ '', '' @ number_to_string (getFullYear dt))
         \<and> (\<forall>v dt f. truthy v \<and> to_date v = Some dt \<and> f \<noteq> ''%B %d, %Y'' \<longrightarrow>
               formatDate to_date v f
                 = number_to_string (getFullYear dt)
                   @ ''-'' @ padStart 2 CHR ''0'' (number_to_string (int (getMonth dt) + 1))
                   @ ''-'' @ padStart 2 CHR ''0'' (number_to_string (int (getDate dt))))
         \<and> (\<forall>y. 1000 \<le> y \<and> y \<le> 9999 \<longrightarrow> length (number_to_string y) = 4)
         \<and> (\<forall>d < 100. length (padStart 2 CHR ''0'' (number_to_string (int d))) = 2)"
proof -
  let ?ph = "''{{'' @ ws1 @ key @ ws2 @ ''|'' @ ws3 @ ''date:'' @ ws4 @ [CHR 0x22] @ fmt
                @ [CHR 0x22] @ ws5 @ ''}}'' @ rest"
  let ?f = "\<lambda>(key, fmt). formatDate to_date (get_prop data key) fmt"
  have m: "match_date ?ph = Some ((key, fmt), rest)"
    using match_date_placeholder [OF assms(1-9)] .
  have "gsub match_date ?f ?ph = ?f (key, fmt) @ gsub match_date ?f rest"
    using gsub_date_Some [of "CHR ''{''" _ "(key, fmt)" rest ?f] m by simp
  then have "gsub match_date ?f (pre @ ?ph) = pre @ ?f (key, fmt) @ gsub match_date ?f rest"
    using gsub_date_copy [OF assms(10), of ?f ?ph] by simp
  then have a: "substitute_dates to_date (pre @ ?ph) data
           = pre @ formatDate to_date (get_prop data key) fmt @ substitute_dates to_date rest data"
    by (simp add: substitute_dates_def)
  have c: "\<forall>html. substitute_dates to_date html data
                = concat (map (fill ?f) (segments match_date html))"
    by (simp add: substitute_dates_def gsub_segments)
  have e1: "\<forall>v f. \<not> truthy v \<longrightarrow> formatDate to_date v f = []"
    by (simp add: formatDate_def)
  have e2: "\<forall>v f. truthy v \<and> to_date v = None \<longrightarrow> formatDate to_date v f = ToString v"
    by (simp add: formatDate_def)
  have e3: "\<forall>v dt. truthy v \<and> to_date v = Some dt \<and> getMonth dt < 12 \<longrightarrow>
               formatDate to_date v ''%B %d, %Y''
                 = months ! getMonth dt @ '' ''
                   @ padStart 2 CHR ''0'' (number_to_string (int (getDate dt)))
                   @ '', '' @ number_to_string (getFullYear dt)"
    by (simp add: formatDate_def Let_def months_def)
  have e4: "\<forall>v dt f. truthy v \<and> to_date v = Some dt \<and> f \<noteq> ''%B %d, %Y'' \<longrightarrow>
               formatDate to_date v f
                 = number_to_string (getFullYear dt)
                   @ ''-'' @ padStart 2 CHR ''0'' (number_to_string (int (getMonth dt) + 1))
                   @ ''-'' @ padStart 2 CHR ''0'' (number_to_string (int (getDate dt)))"
    by (simp add: formatDate_def Let_def)
  have b1: "\<forall>y. 1000 \<le> y \<and> y \<le> 9999 \<longrightarrow> length (number_to_string y) = 4"
    by (simp add: four_digit_year)
  have b2: "\<forall>d < 100. length (padStart 2 CHR ''0'' (number_to_string (int d))) = 2"
    by (simp add: two_digit_day)
  from m a c e1 e2 e3 e4 b1 b2 show ?thesis by (intro conjI)
qed

text \<open>
  The spec's example: \<open>2024-03-05\<close> under \<open>%B %d, %Y\<close> gives \<open>March 05, 2024\<close> (in
  a process whose time zone is UTC); under another format it gives \<open>2024-03-05\<close>; a
  text that is no date is put out as it is.
\<close>

theorem date_filter_substitution_witness:
  "substitute_dates utc_Date ''{{d | date: \"%B %d, %Y\"}}'' [''d'' \<mapsto> JStr ''2024-03-05'']
     = ''March 05, 2024''
   \<and> substitute_dates utc_Date ''{{d | date: \"%Y\"}}'' [''d'' \<mapsto> JStr ''2024-03-05'']
     = ''2024-03-05''
   \<and> substitute_dates utc_Date ''{{d | date: \"%B %d, %Y\"}}'' [''d'' \<mapsto> JStr ''soon'']
     = ''soon''
   \<and> substitute_dates utc_Date ''{{d | date: \"%B %d, %Y\"}}'' Map.empty = []"
proof -
  have h1: "''d'' \<noteq> []" by simp
  have h2: "list_all is_word ''d''" by (simp add: is_word_def in_range_def)
  have h3: "''%B %d, %Y'' \<noteq> []" "''%Y'' \<noteq> []" by simp_all
  have h4: "CHR 0x22 \<notin> set ''%B %d, %Y''" "CHR 0x22 \<notin> set ''%Y''" by simp_all
  have h5: "list_all is_space []" by simp
  have h6: "list_all is_space '' ''" by (simp add: is_space_def in_range_def)
  have h7: "CHR ''{'' \<notin> set []" by simp
  note a = date_filter_substitution
    [of "''d''" "''%B %d, %Y''" "[]" "'' ''" "'' ''" "'' ''" "[]" "[]" "[]" utc_Date
        "[''d'' \<mapsto> JStr ''2024-03-05'']", OF h1 h2 h3(1) h4(1) h5 h6 h6 h6 h5 h7,
     THEN conjunct2, THEN conjunct1]
  note b = date_filter_substitution
    [of "''d''" "''%Y''" "[]" "'' ''" "'' ''" "'' ''" "[]" "[]" "[]" utc_Date
        "[''d'' \<mapsto> JStr ''2024-03-05'']", OF h1 h2 h3(2) h4(2) h5 h6 h6 h6 h5 h7,
     THEN conjunct2, THEN conjunct1]
  note d = date_filter_substitution
    [of "''d''" "''%B %d, %Y''" "[]" "'' ''" "'' ''" "'' ''" "[]" "[]" "[]" utc_Date
        "[''d'' \<mapsto> JStr ''soon'']", OF h1 h2 h3(1) h4(1) h5 h6 h6 h6 h5 h7,
     THEN conjunct2, THEN conjunct1]
  note n = date_filter_substitution
    [of "''d''" "''%B %d, %Y''" "[]" "'' ''" "'' ''" "'' ''" "[]" "[]" "[]" utc_Date Map.empty,
     OF h1 h2 h3(1) h4(1) h5 h6 h6 h6 h5 h7, THEN conjunct2, THEN conjunct1]
  have e: "substitute_dates utc_Date [] x = []" for x by (simp add: substitute_dates_def)
  have r1: "formatDate utc_Date (get_prop [''d'' \<mapsto> JStr ''2024-03-05''] ''d'') ''%B %d, %Y''
            = ''March 05, 2024''"
    by code_simp
  have r2: "formatDate utc_Date (get_prop [''d'' \<mapsto> JStr ''2024-03-05''] ''d'') ''%Y'' = ''2024-03-05''"
    by code_simp
  have r3: "formatDate utc_Date (get_prop [''d'' \<mapsto> JStr ''soon''] ''d'') ''%B %d, %Y'' = ''soon''"
    by code_simp
  have r4: "formatDate utc_Date (get_prop Map.empty ''d'') ''%B %d, %Y'' = []"
    by code_simp
  show ?thesis
    using a b d n unfolding r1 r2 r3 r4 e by simp
qed

text \<open>
  C3 as stated fails: the number \<open>0\<close> parses as a date (the epoch), but the guard
  \<open>if (!input) return ""\<close> comes first and the placeholder is replaced by the empty
  string, not by \<open>January 01, 1970\<close>. The year is not always four digits either:
  \<open>0099-12-31\<close> gives \<open>December 31, 99\<close>.
\<close>

theorem date_filter_zero_counterexample:
  "utc_Date (JNum ''0'') = Some \<lparr>getFullYear = 1970, getMonth = 0, getDate = 1\<rparr>
   \<and> substitute_dates utc_Date ''{{d | date: \"%B %d, %Y\"}}'' [''d'' \<mapsto> JNum ''0''] = []
   \<and> substitute_dates utc_Date ''{{d | date: \"%B %d, %Y\"}}'' [''d'' \<mapsto> JStr ''0099-12-31'']
     = ''December 31, 99''"
  by (simp add: utc_Date_def) code_simp

section \<open>One scan for each placeholder form\<close>

text \<open>
  C4, as the code has it. Each pass is one scan of its input: the output is the
  concatenation, over the segments that the input alone determines, of the copied
  characters and of the values put in for the matches, so a value is never scanned again
  by the pass that put it in. The second pass scans the output of the first: a value put
  in by the date filter is scanned by the pass for bare placeholders.
\<close>

theorem render_passes:
  "substitute_dates to_date html data
     = concat (map (fill (\<lambda>(key, fmt). formatDate to_date (get_prop data key) fmt))
                   (segments match_date html))
   \<and> substitute_keys html1 data
     = concat (map (fill (\<lambda>key. if get_prop data key = JNull \<or> get_prop data key = JUndefined
                                 then [] else ToString (get_prop data key)))
                   (segments match_plain html1))
   \<and> renderTemplate to_date html data
     = substitute_keys (substitute_dates to_date html data) data"
proof -
  have "key_text data = (\<lambda>key. if get_prop data key = JNull \<or> get_prop data key = JUndefined
                                 then [] else ToString (get_prop data key))"
    by (simp add: key_text_def Let_def fun_eq_iff)
  then show ?thesis
    by (simp add: substitute_dates_def substitute_keys_def renderTemplate_def gsub_segments)
qed

text \<open>
  A value put in for a bare placeholder stays as it is, also when it looks like a
  placeholder.
\<close>

theorem render_passes_witness:
  "segments match_plain ''{{a}}'' = [Matched ''a'']
   \<and> substitute_keys ''{{a}}'' [''a'' \<mapsto> JStr ''{{b}}'', ''b'' \<mapsto> JStr ''Ann''] = ''{{b}}''"
proof -
  have s: "segments match_plain ''{{a}}'' = [Matched ''a'']"
    by code_simp
  show ?thesis
    using render_passes [of utc_Date "[]" "[''a'' \<mapsto> JStr ''{{b}}'', ''b'' \<mapsto> JStr ''Ann'']" "''{{a}}''",
        THEN conjunct2, THEN conjunct1]
    unfolding s by (simp add: get_prop_def)
qed

text \<open>
  C4 as stated fails: under the date filter the value \<open>{{name}}\<close> is no date, so the
  first pass puts it in as it is, and the second pass replaces it by the payload's
  \<open>name\<close>.
\<close>

theorem date_value_rescanned_counterexample:
  "utc_Date (JStr ''{{name}}'') = None
   \<and> renderTemplate utc_Date ''{{ d | date: \"%Y\" }}''
        [''d'' \<mapsto> JStr ''{{name}}'', ''name'' \<mapsto> JStr ''Ann''] = ''Ann''"
  by (simp add: utc_Date_def) code_simp

section \<open>What \<open>generateOnePdf\<close> goes through\<close>

lemma template_lookup:
  "get_prop (TEMPLATE_FILES dir) k =
     (if k \<in> set template_keys then JStr (dir @ ''/templates/'' @ k @ ''.html'') else inherited k)"
proof -
  have "map_of (map (\<lambda>k. (k, f k)) ks) x = (if x \<in> set ks then Some (f x) else None)"
    for f :: "string \<Rightarrow> jsval" and ks x
    by (induction ks) auto
  then show ?thesis by (simp add: get_prop_def TEMPLATE_FILES_def)
qed

lemma join_template_keys:
  "join '', '' template_keys
     = ''meal_first, meal_weekly, workout_first, workout_weekly, bundle_first, bundle_weekly''"
  by (simp add: template_keys_def)

lemma inherited_not_template: "k \<in> set template_keys \<Longrightarrow> inherited k = JUndefined"
  by (auto simp: template_keys_def inherited_def object_prototype_functions_def)

lemma truthy_inherited: "truthy (inherited k) \<Longrightarrow> (\<forall>path. inherited k \<noteq> JStr path)"
  by (auto simp: inherited_def split: if_splits)

lemma getBrowser_frame:
  "getBrowser w = (b, w1) \<Longrightarrow>
     saved w1 = saved w \<and> uuids_drawn w1 = uuids_drawn w \<and> clock_reads w1 = clock_reads w
     \<and> closed w1 = closed w \<and> exited w1 = exited w"
  by (auto simp: getBrowser_def split: option.splits)

lemma htmlToPdfBuffer_frame:
  "htmlToPdfBuffer e w html = (w1, r) \<Longrightarrow>
     saved w1 = saved w \<and> uuids_drawn w1 = uuids_drawn w \<and> clock_reads w1 = clock_reads w
     \<and> closed w1 = closed w \<and> exited w1 = exited w"
  by (auto simp: htmlToPdfBuffer_def split: prod.splits option.splits dest: getBrowser_frame)

lemma job_id_of_frame:
  "job_id_of e w payload = (j, w1) \<Longrightarrow>
     saved w1 = saved w \<and> clock_reads w1 = clock_reads w \<and> browserPromise w1 = browserPromise w
     \<and> launches w1 = launches w \<and> closed w1 = closed w \<and> exited w1 = exited w"
  by (auto simp: job_id_of_def split: if_splits)

lemma base_prefix_of_frame:
  "base_prefix_of e w payload j = (p, w1) \<Longrightarrow>
     saved w1 = saved w \<and> uuids_drawn w1 = uuids_drawn w \<and> browserPromise w1 = browserPromise w
     \<and> launches w1 = launches w \<and> closed w1 = closed w \<and> exited w1 = exited w"
  by (auto simp: base_prefix_of_def split: if_splits)

lemma upload_no_bucket:
  "BUCKET_NAME e = [] \<Longrightarrow>
     uploadPdfAndSign e w buf name = (w, Inl (JsError ''Error'' ''Missing BUCKET_NAME env var''))"
  by (simp add: uploadPdfAndSign_def)

lemma upload_frame:
  "uploadPdfAndSign e w buf name = (w1, r) \<Longrightarrow>
     uuids_drawn w1 = uuids_drawn w \<and> clock_reads w1 = clock_reads w
     \<and> browserPromise w1 = browserPromise w \<and> launches w1 = launches w
     \<and> closed w1 = closed w \<and> exited w1 = exited w"
  by (auto simp: uploadPdfAndSign_def Let_def split: if_splits option.splits sum.splits)

lemma upload_Inr:
  "uploadPdfAndSign e w buf name = (w1, Inr (gcsPath, url)) \<Longrightarrow>
     BUCKET_NAME e \<noteq> [] \<and> saved w1 = saved w @ [(name, buf)]
     \<and> gcsPath = ''gs://'' @ BUCKET_NAME e @ ''/'' @ name \<and> getSignedUrl e name = Inr url"
  by (auto simp: uploadPdfAndSign_def Let_def split: if_splits option.splits sum.splits)

text \<open>What a successful generateOnePdf went through.\<close>

lemma generateOnePdf_Inr:
  assumes "generateOnePdf e w templateKey payload = (w', Inr file)"
  shows "\<exists>htmlRaw w1 pdfBuffer jobId w2 basePrefix w3 gcsPath url.
           ToString templateKey \<in> set template_keys
           \<and> fs_readFile e (dirname e @ ''/templates/'' @ ToString templateKey @ ''.html'') = Inr htmlRaw
           \<and> htmlToPdfBuffer e w (renderTemplate (new_Date e) htmlRaw payload) = (w1, Inr pdfBuffer)
           \<and> job_id_of e w1 payload = (jobId, w2)
           \<and> base_prefix_of e w2 payload jobId = (basePrefix, w3)
           \<and> uploadPdfAndSign e w3 pdfBuffer
                (ToString basePrefix @ ''/'' @ ToString templateKey @ ''_''
                 @ safeSlug (get_prop payload ''client_name'') @ ''_'' @ ToString jobId @ ''.pdf'')
               = (w', Inr (gcsPath, url))
           \<and> file = file_object templateKey jobId (BUCKET_NAME e)
                (ToString templateKey @ ''_'' @ safeSlug (get_prop payload ''client_name'') @ ''_''
                 @ ToString jobId @ ''.pdf'')
                (ToString basePrefix @ ''/'' @ ToString templateKey @ ''_''
                 @ safeSlug (get_prop payload ''client_name'') @ ''_'' @ ToString jobId @ ''.pdf'')
                gcsPath url"
proof (cases "ToString templateKey \<in> set template_keys")
  case True
  then show ?thesis
    using assms
    by (auto simp: generateOnePdf_def template_lookup readFile_def Let_def
        split: sum.splits prod.splits)
next
  case False
  have "snd (generateOnePdf e w templateKey payload) \<noteq> Inr file"
  proof (cases "truthy (inherited (ToString templateKey))")
    case True
    then have "readFile e (inherited (ToString templateKey))
               = Inl (fs_invalid_path e (inherited (ToString templateKey)))"
      by (auto simp: readFile_def inherited_def split: if_splits)
    with True False show ?thesis
      by (simp add: generateOnePdf_def template_lookup Let_def)
  next
    case f: False
    with False show ?thesis
      by (simp add: generateOnePdf_def template_lookup Let_def)
  qed
  with assms show ?thesis by simp
qed

section \<open>The template key of \<open>POST /pdf\<close>\<close>

lemma generateOnePdf_unknown:
  assumes "ToString k \<notin> set template_keys"
  shows "generateOnePdf e w k payload =
           (w, Inl (if truthy (inherited (ToString k))
                    then fs_invalid_path e (inherited (ToString k))
                    else JsError ''Error''
                           (''Unknown template_key '' @ [CHR 0x22] @ ToString k @ [CHR 0x22]
                            @ ''. Allowed: '' @ join '', '' template_keys)))"
proof (cases "truthy (inherited (ToString k))")
  case True
  then have "readFile e (inherited (ToString k)) = Inl (fs_invalid_path e (inherited (ToString k)))"
    by (auto simp: readFile_def inherited_def split: if_splits)
  with True assms show ?thesis
    by (simp add: generateOnePdf_def template_lookup Let_def)
next
  case False
  with assms show ?thesis
    by (simp add: generateOnePdf_def template_lookup Let_def)
qed

lemma post_pdf_status:
  "status (snd (post_pdf e w b q)) = 400 \<or> status (snd (post_pdf e w b q)) = 500
   \<or> status (snd (post_pdf e w b q)) = 200"
  by (auto simp: post_pdf_def Let_def error_response_def split: prod.splits sum.splits)

text \<open>
  C1, as the code has it. When no template key is given (body \<open>template_key\<close>, query
  \<open>template_key\<close> and query \<open>template\<close> are all absent or falsy) the response is 400
  with \<open>ok: false\<close> and the allowed keys. A key that is given but names none of the six
  templates is not answered with 400: \<open>generateOnePdf\<close> throws, the handler's \<open>catch\<close>
  answers 500 with \<open>ok: false\<close>, and the message is
  \<open>Unknown template_key "...". Allowed: ...\<close> unless the key names a member inherited
  from \<open>Object.prototype\<close>. 400 is the answer to a missing key only.
\<close>

theorem post_pdf_template_key:
  "(let key = resolveTemplateKey (body_or_empty b) q
    in (\<not> truthy key \<longrightarrow>
          post_pdf e w b q =
            (w, \<lparr>status = 400,
                 body = JObject
                   [(''ok'', JV (JBool False)),
                    (''error'', JV (JStr ''Missing template_key. Allowed: meal_first, meal_weekly, workout_first, workout_weekly, bundle_first, bundle_weekly''))]\<rparr>))
     \<and> (truthy key \<and> ToString key \<notin> set template_keys \<longrightarrow>
          (\<exists>msg. post_pdf e w b q =
             (w, \<lparr>status = 500,
                  body = JObject [(''ok'', JV (JBool False)), (''error'', JV (JStr msg))]\<rparr>))
          \<and> (inherited (ToString key) = JUndefined \<longrightarrow>
               post_pdf e w b q =
                 (w, \<lparr>status = 500,
                      body = JObject
                        [(''ok'', JV (JBool False)),
                         (''error'', JV (JStr (''Unknown template_key \"'' @ ToString key
                            @ ''\". Allowed: meal_first, meal_weekly, workout_first, workout_weekly, bundle_first, bundle_weekly'')))]\<rparr>)))
     \<and> (status (snd (post_pdf e w b q)) = 400 \<longleftrightarrow> \<not> truthy key))"
proof -
  let ?key = "resolveTemplateKey (body_or_empty b) q"
  have 1: "\<not> truthy ?key \<Longrightarrow>
          post_pdf e w b q =
            (w, \<lparr>status = 400,
                 body = JObject
                   [(''ok'', JV (JBool False)),
                    (''error'', JV (JStr ''Missing template_key. Allowed: meal_first, meal_weekly, workout_first, workout_weekly, bundle_first, bundle_weekly''))]\<rparr>)"
    by (simp add: post_pdf_def Let_def error_response_def join_template_keys)
  have 2: "post_pdf e w b q = (w, error_response 500 (error_text
              (if truthy (inherited (ToString ?key))
               then fs_invalid_path e (inherited (ToString ?key))
               else JsError ''Error''
                      (''Unknown template_key '' @ [CHR 0x22] @ ToString ?key @ [CHR 0x22]
                       @ ''. Allowed: '' @ join '', '' template_keys))))"
    if "truthy ?key" "ToString ?key \<notin> set template_keys"
    using that generateOnePdf_unknown [OF that(2), of e w "body_or_empty b"]
    by (simp add: post_pdf_def Let_def)
  have 3: "status (snd (post_pdf e w b q)) \<noteq> 400" if "truthy ?key"
    using that
    by (auto simp: post_pdf_def Let_def error_response_def split: prod.splits sum.splits)
  have 4: "status (snd (post_pdf e w b q)) = 400" if "\<not> truthy ?key"
    using 1 [OF that] by simp
  show ?thesis
    unfolding Let_def
    using 1 2 3 4
    by (auto simp: error_response_def join_template_keys)
qed

theorem post_pdf_template_key_witness:
  "post_pdf working_env initial_world None Map.empty =
     (initial_world,
      \<lparr>status = 400,
       body = JObject
         [(''ok'', JV (JBool False)),
          (''error'', JV (JStr ''Missing template_key. Allowed: meal_first, meal_weekly, workout_first, workout_weekly, bundle_first, bundle_weekly''))]\<rparr>)
   \<and> post_pdf working_env initial_world (Some Map.empty) [''template'' \<mapsto> JStr ''weekly''] =
     (initial_world,
      \<lparr>status = 500,
       body = JObject
         [(''ok'', JV (JBool False)),
          (''error'', JV (JStr ''Unknown template_key \"weekly\". Allowed: meal_first, meal_weekly, workout_first, workout_weekly, bundle_first, bundle_weekly''))]\<rparr>)
   \<and> status (snd (post_pdf working_env initial_world (Some [''template_key'' \<mapsto> JStr ''meal_first'']) Map.empty))
       \<noteq> 400"
  using post_pdf_template_key [of None Map.empty working_env initial_world]
    post_pdf_template_key [of "Some Map.empty" "[''template'' \<mapsto> JStr ''weekly'']" working_env initial_world]
    post_pdf_template_key [of "Some [''template_key'' \<mapsto> JStr ''meal_first'']" Map.empty working_env initial_world]
  by (simp add: Let_def resolveTemplateKey_def body_or_empty_def get_prop_def inherited_def js_or_def
      object_prototype_functions_def template_keys_def)

text \<open>
  C1 as stated fails: the unknown key \<open>nope\<close> is answered with 500, not 400.
\<close>

theorem unknown_template_key_counterexample:
  "snd (post_pdf working_env initial_world (Some [''template_key'' \<mapsto> JStr ''nope'']) Map.empty) =
     \<lparr>status = 500,
      body = JObject
        [(''ok'', JV (JBool False)),
         (''error'', JV (JStr ''Unknown template_key \"nope\". Allowed: meal_first, meal_weekly, workout_first, workout_weekly, bundle_first, bundle_weekly''))]\<rparr>"
  by code_simp

section \<open>No bucket configured\<close>

lemma keysToGenerate_nonempty: "keysToGenerate payload \<noteq> []"
  by (auto simp: keysToGenerate_def template_keys_def split: jsval.splits)

lemma generateOnePdf_no_bucket:
  assumes "BUCKET_NAME e = []"
  shows "\<exists>w' err. generateOnePdf e w k p = (w', Inl err) \<and> saved w' = saved w"
proof -
  obtain w' r where g: "generateOnePdf e w k p = (w', r)" by (cases "generateOnePdf e w k p")
  have "\<exists>err. r = Inl err"
  proof (cases r)
    case (Inl a)
    then show ?thesis by simp
  next
    case (Inr fl)
    with g assms generateOnePdf_Inr [of e w k p w' fl] upload_Inr show ?thesis by blast
  qed
  moreover have "saved w' = saved w"
    using g assms
    by (auto simp: generateOnePdf_def Let_def upload_no_bucket
        split: if_splits sum.splits prod.splits
        dest!: htmlToPdfBuffer_frame job_id_of_frame base_prefix_of_frame)
  ultimately show ?thesis using g by blast
qed

lemma generate_all_no_bucket:
  assumes "BUCKET_NAME e = []" "keys \<noteq> []"
  shows "\<exists>w' err. generate_all e w p keys acc = (w', Inl err) \<and> saved w' = saved w"
proof (cases keys)
  case Nil
  with assms show ?thesis by simp
next
  case (Cons k ks)
  from generateOnePdf_no_bucket [OF assms(1), of w k p]
  obtain w' err where "generateOnePdf e w k p = (w', Inl err)" "saved w' = saved w" by blast
  with Cons show ?thesis by simp
qed

lemma generateOnePdf_stops_at_upload:
  assumes "BUCKET_NAME e = []" "ToString k \<in> set template_keys"
    "fs_readFile e (dirname e @ ''/templates/'' @ ToString k @ ''.html'') = Inr htmlRaw"
    "chromium_launch e (fst (getBrowser w)) = None"
    "page_pdf e (renderTemplate (new_Date e) htmlRaw p) = Inr pdf"
  shows "snd (generateOnePdf e w k p) = Inl (JsError ''Error'' ''Missing BUCKET_NAME env var'')"
  using assms
  by (auto simp: generateOnePdf_def template_lookup readFile_def Let_def htmlToPdfBuffer_def
      upload_no_bucket split: prod.splits)

lemma missing_bucket_steps:
  "(BUCKET_NAME e = [] \<longrightarrow>
      uploadPdfAndSign e w buf name = (w, Inl (JsError ''Error'' ''Missing BUCKET_NAME env var'')))
   \<and> (BUCKET_NAME e \<noteq> [] \<and> snd (uploadPdfAndSign e w buf name) = Inl err \<longrightarrow>
        file_save e name buf = Some err \<or> getSignedUrl e name = Inl err)
   \<and> (BUCKET_NAME e = [] \<longrightarrow>
        status (snd (post_pdf e w b q)) \<noteq> 200
        \<and> field (body (snd (post_pdf e w b q))) ''file'' = None
        \<and> saved (fst (post_pdf e w b q)) = saved w
        \<and> status (snd (post_pdfs e w b)) = 500
        \<and> field (body (snd (post_pdfs e w b))) ''files'' = None
        \<and> saved (fst (post_pdfs e w b)) = saved w)
   \<and> (BUCKET_NAME e = [] \<and> truthy (resolveTemplateKey (body_or_empty b) q)
        \<and> ToString (resolveTemplateKey (body_or_empty b) q) \<in> set template_keys
        \<and> fs_readFile e (dirname e @ ''/templates/''
                           @ ToString (resolveTemplateKey (body_or_empty b) q) @ ''.html'') = Inr htmlRaw
        \<and> chromium_launch e (fst (getBrowser w)) = None
        \<and> page_pdf e (renderTemplate (new_Date e) htmlRaw (body_or_empty b)) = Inr pdf \<longrightarrow>
        snd (post_pdf e w b q) =
          \<lparr>status = 500,
           body = JObject [(''ok'', JV (JBool False)),
                           (''error'', JV (JStr ''Missing BUCKET_NAME env var''))]\<rparr>)
   \<and> (BUCKET_NAME e = [] \<and> keysToGenerate (body_or_empty b) = k # ks
        \<and> ToString k \<in> set template_keys
        \<and> fs_readFile e (dirname e @ ''/templates/'' @ ToString k @ ''.html'') = Inr htmlRaw
        \<and> chromium_launch e (fst (getBrowser w)) = None
        \<and> page_pdf e (renderTemplate (new_Date e) htmlRaw (body_or_empty b)) = Inr pdf \<longrightarrow>
        snd (post_pdfs e w b) =
          \<lparr>status = 500,
           body = JObject [(''ok'', JV (JBool False)),
                           (''error'', JV (JStr ''Missing BUCKET_NAME env var''))]\<rparr>)"
proof -
  have 1: "BUCKET_NAME e = [] \<Longrightarrow>
      uploadPdfAndSign e w buf name = (w, Inl (JsError ''Error'' ''Missing BUCKET_NAME env var''))"
    by (rule upload_no_bucket)
  have 2: "BUCKET_NAME e \<noteq> [] \<Longrightarrow> snd (uploadPdfAndSign e w buf name) = Inl err \<Longrightarrow>
        file_save e name buf = Some err \<or> getSignedUrl e name = Inl err"
    by (auto simp: uploadPdfAndSign_def Let_def split: option.splits sum.splits)
  have 3: "status (snd (post_pdf e w b q)) \<noteq> 200
        \<and> field (body (snd (post_pdf e w b q))) ''file'' = None
        \<and> saved (fst (post_pdf e w b q)) = saved w" if nb: "BUCKET_NAME e = []"
  proof -
    let ?k = "resolveTemplateKey (body_or_empty b) q"
    from generateOnePdf_no_bucket [OF nb, of w ?k "body_or_empty b"]
    obtain w' err where "generateOnePdf e w ?k (body_or_empty b) = (w', Inl err)" "saved w' = saved w"
      by blast
    then show ?thesis
      by (simp add: post_pdf_def Let_def error_response_def field_def)
  qed
  have 4: "status (snd (post_pdfs e w b)) = 500
        \<and> field (body (snd (post_pdfs e w b))) ''files'' = None
        \<and> saved (fst (post_pdfs e w b)) = saved w" if nb: "BUCKET_NAME e = []"
  proof -
    from generate_all_no_bucket [OF nb keysToGenerate_nonempty, of w "body_or_empty b" "body_or_empty b" "[]"]
    obtain w' err where
      "generate_all e w (body_or_empty b) (keysToGenerate (body_or_empty b)) [] = (w', Inl err)"
      "saved w' = saved w"
      by blast
    then show ?thesis
      by (simp add: post_pdfs_def Let_def error_response_def field_def)
  qed
  have 5: "snd (post_pdf e w b q) =
          \<lparr>status = 500,
           body = JObject [(''ok'', JV (JBool False)),
                           (''error'', JV (JStr ''Missing BUCKET_NAME env var''))]\<rparr>"
    if "BUCKET_NAME e = []" "truthy (resolveTemplateKey (body_or_empty b) q)"
       "ToString (resolveTemplateKey (body_or_empty b) q) \<in> set template_keys"
       "fs_readFile e (dirname e @ ''/templates/''
                           @ ToString (resolveTemplateKey (body_or_empty b) q) @ ''.html'') = Inr htmlRaw"
       "chromium_launch e (fst (getBrowser w)) = None"
       "page_pdf e (renderTemplate (new_Date e) htmlRaw (body_or_empty b)) = Inr pdf"
    using generateOnePdf_stops_at_upload [OF that(1,3,4,5,6)] that(2)
    by (cases "generateOnePdf e w (resolveTemplateKey (body_or_empty b) q) (body_or_empty b)")
       (simp add: post_pdf_def Let_def error_response_def)
  have 6: "snd (post_pdfs e w b) =
          \<lparr>status = 500,
           body = JObject [(''ok'', JV (JBool False)),
                           (''error'', JV (JStr ''Missing BUCKET_NAME env var''))]\<rparr>"
    if "BUCKET_NAME e = []" "keysToGenerate (body_or_empty b) = k # ks"
       "ToString k \<in> set template_keys"
       "fs_readFile e (dirname e @ ''/templates/'' @ ToString k @ ''.html'') = Inr htmlRaw"
       "chromium_launch e (fst (getBrowser w)) = None"
       "page_pdf e (renderTemplate (new_Date e) htmlRaw (body_or_empty b)) = Inr pdf"
    using generateOnePdf_stops_at_upload [OF that(1,3,4,5,6)] that(2)
    by (cases "generateOnePdf e w k (body_or_empty b)")
       (simp add: post_pdfs_def Let_def error_response_def)
  show ?thesis using 1 2 3 4 5 6 by blast
qed

text \<open>
  C8. The upload fails with \<open>Missing BUCKET_NAME env var\<close> when the bucket name is
  empty, and with a bucket every failure of the upload is the store's (saving or
  signing). With no bucket no request is answered with 200, no response holds a \<open>file\<close>
  or \<open>files\<close> member, and nothing is saved. A render request, one whose template key
  names a template (for \<open>POST /pdfs\<close> the first key), for which the template is read,
  the browser starts and the page is printed, so that the bucket is the only thing
  missing, is answered with 500, \<open>ok: false\<close> and that message.
\<close>

theorem missing_bucket:
  "(BUCKET_NAME e = [] \<longrightarrow>
      uploadPdfAndSign e w buf name = (w, Inl (JsError ''Error'' ''Missing BUCKET_NAME env var'')))
   \<and> (BUCKET_NAME e \<noteq> [] \<and> snd (uploadPdfAndSign e w buf name) = Inl err \<longrightarrow>
        file_save e name buf = Some err \<or> getSignedUrl e name = Inl err)
   \<and> (BUCKET_NAME e = [] \<longrightarrow>
        status (snd (post_pdf e w b q)) \<noteq> 200
        \<and> field (body (snd (post_pdf e w b q))) ''file'' = None
        \<and> saved (fst (post_pdf e w b q)) = saved w
        \<and> status (snd (post_pdfs e w b)) = 500
        \<and> field (body (snd (post_pdfs e w b))) ''files'' = None
        \<and> saved (fst (post_pdfs e w b)) = saved w)
   \<and> (BUCKET_NAME e = [] \<and> truthy (resolveTemplateKey (body_or_empty b) q)
        \<and> ToString (resolveTemplateKey (body_or_empty b) q) \<in> set template_keys
        \<and> fs_readFile e (dirname e @ ''/templates/''
                           @ ToString (resolveTemplateKey (body_or_empty b) q) @ ''.html'') = Inr htmlRaw
        \<and> chromium_launch e (fst (getBrowser w)) = None
        \<and> page_pdf e (renderTemplate (new_Date e) htmlRaw (body_or_empty b)) = Inr pdf \<longrightarrow>
        snd (post_pdf e w b q) =
          \<lparr>status = 500,
           body = JObject [(''ok'', JV (JBool False)),
                           (''error'', JV (JStr ''Missing BUCKET_NAME env var''))]\<rparr>)
   \<and> (BUCKET_NAME e = [] \<and> keysToGenerate (body_or_empty b) = k # ks
        \<and> ToString k \<in> set template_keys
        \<and> fs_readFile e (dirname e @ ''/templates/'' @ ToString k @ ''.html'') = Inr htmlRaw
        \<and> chromium_launch e (fst (getBrowser w)) = None
        \<and> page_pdf e (renderTemplate (new_Date e) htmlRaw (body_or_empty b)) = Inr pdf \<longrightarrow>
        snd (post_pdfs e w b) =
          \<lparr>status = 500,
           body = JObject [(''ok'', JV (JBool False)),
                           (''error'', JV (JStr ''Missing BUCKET_NAME env var''))]\<rparr>)
   \<and> (BUCKET_NAME e = []
        \<and> (\<forall>path. \<exists>text. fs_readFile e path = Inr text)
        \<and> (\<forall>n. chromium_launch e n = None)
        \<and> (\<forall>html. \<exists>buffer. page_pdf e html = Inr buffer)
        \<and> truthy (resolveTemplateKey (body_or_empty b) q)
        \<and> ToString (resolveTemplateKey (body_or_empty b) q) \<in> set template_keys \<longrightarrow>
        snd (post_pdf e w b q) =
          \<lparr>status = 500,
           body = JObject [(''ok'', JV (JBool False)),
                           (''error'', JV (JStr ''Missing BUCKET_NAME env var''))]\<rparr>)
   \<and> (BUCKET_NAME e = []
        \<and> (\<forall>path. \<exists>text. fs_readFile e path = Inr text)
        \<and> (\<forall>n. chromium_launch e n = None)
        \<and> (\<forall>html. \<exists>buffer. page_pdf e html = Inr buffer)
        \<and> (\<forall>key\<in>set (keysToGenerate (body_or_empty b)). ToString key \<in> set template_keys) \<longrightarrow>
        snd (post_pdfs e w b) =
          \<lparr>status = 500,
           body = JObject [(''ok'', JV (JBool False)),
                           (''error'', JV (JStr ''Missing BUCKET_NAME env var''))]\<rparr>)"
proof -
  let ?r = "\<lparr>status = 500,
           body = JObject [(''ok'', JV (JBool False)),
                           (''error'', JV (JStr ''Missing BUCKET_NAME env var''))]\<rparr>"
  let ?p = "body_or_empty b"
  have pdf_one: "snd (post_pdf e w b q) = ?r"
    if nb: "BUCKET_NAME e = []" and tr: "truthy (resolveTemplateKey ?p q)"
      and kn: "ToString (resolveTemplateKey ?p q) \<in> set template_keys"
      and rd: "fs_readFile e (dirname e @ ''/templates/''
                 @ ToString (resolveTemplateKey ?p q) @ ''.html'') = Inr h"
      and la: "chromium_launch e (fst (getBrowser w)) = None"
      and pr: "page_pdf e (renderTemplate (new_Date e) h ?p) = Inr p" for h p
    using generateOnePdf_stops_at_upload [OF nb kn rd la pr] tr
    by (cases "generateOnePdf e w (resolveTemplateKey ?p q) ?p")
       (simp add: post_pdf_def Let_def error_response_def)
  have pdf_many: "snd (post_pdfs e w b) = ?r"
    if nb: "BUCKET_NAME e = []" and ks: "keysToGenerate ?p = k' # ks'"
      and kn: "ToString k' \<in> set template_keys"
      and rd: "fs_readFile e (dirname e @ ''/templates/'' @ ToString k' @ ''.html'') = Inr h"
      and la: "chromium_launch e (fst (getBrowser w)) = None"
      and pr: "page_pdf e (renderTemplate (new_Date e) h ?p) = Inr p" for h p k' ks'
    using generateOnePdf_stops_at_upload [OF nb kn rd la pr] ks
    by (cases "generateOnePdf e w k' ?p")
       (simp add: post_pdfs_def Let_def error_response_def)
  have 6: "BUCKET_NAME e = []
        \<and> (\<forall>path. \<exists>text. fs_readFile e path = Inr text)
        \<and> (\<forall>n. chromium_launch e n = None)
        \<and> (\<forall>html. \<exists>buffer. page_pdf e html = Inr buffer)
        \<and> truthy (resolveTemplateKey ?p q)
        \<and> ToString (resolveTemplateKey ?p q) \<in> set template_keys \<longrightarrow>
        snd (post_pdf e w b q) = ?r"
  proof (intro impI, elim conjE)
    assume nb: "BUCKET_NAME e = []"
      and rd: "\<forall>path. \<exists>text. fs_readFile e path = Inr text"
      and la: "\<forall>n. chromium_launch e n = None"
      and pr: "\<forall>html. \<exists>buffer. page_pdf e html = Inr buffer"
      and tr: "truthy (resolveTemplateKey ?p q)"
      and kn: "ToString (resolveTemplateKey ?p q) \<in> set template_keys"
    from rd obtain h where h: "fs_readFile e (dirname e @ ''/templates/''
                 @ ToString (resolveTemplateKey ?p q) @ ''.html'') = Inr h"
      by blast
    from pr obtain p where p: "page_pdf e (renderTemplate (new_Date e) h ?p) = Inr p"
      by blast
    from la have l: "chromium_launch e (fst (getBrowser w)) = None" by simp
    show "snd (post_pdf e w b q) = ?r" by (rule pdf_one [OF nb tr kn h l p])
  qed
  have 7: "BUCKET_NAME e = []
        \<and> (\<forall>path. \<exists>text. fs_readFile e path = Inr text)
        \<and> (\<forall>n. chromium_launch e n = None)
        \<and> (\<forall>html. \<exists>buffer. page_pdf e html = Inr buffer)
        \<and> (\<forall>key\<in>set (keysToGenerate ?p). ToString key \<in> set template_keys) \<longrightarrow>
        snd (post_pdfs e w b) = ?r"
  proof (intro impI, elim conjE)
    assume nb: "BUCKET_NAME e = []"
      and rd: "\<forall>path. \<exists>text. fs_readFile e path = Inr text"
      and la: "\<forall>n. chromium_launch e n = None"
      and pr: "\<forall>html. \<exists>buffer. page_pdf e html = Inr buffer"
      and kn: "\<forall>key\<in>set (keysToGenerate ?p). ToString key \<in> set template_keys"
    obtain k' ks' where ks: "keysToGenerate ?p = k' # ks'"
      using keysToGenerate_nonempty [of ?p] by (cases "keysToGenerate ?p") auto
    with kn have k: "ToString k' \<in> set template_keys" by simp
    from rd obtain h where h: "fs_readFile e (dirname e @ ''/templates/'' @ ToString k' @ ''.html'') = Inr h"
      by blast
    from pr obtain p where p: "page_pdf e (renderTemplate (new_Date e) h ?p) = Inr p"
      by blast
    from la have l: "chromium_launch e (fst (getBrowser w)) = None" by simp
    show "snd (post_pdfs e w b) = ?r" by (rule pdf_many [OF nb ks k h l p])
  qed
  note old = missing_bucket_steps [of e w buf name err b q htmlRaw pdf k ks]
  show ?thesis
    using old 6 7 by (elim conjE) (intro conjI; assumption)
qed

theorem missing_bucket_witness:
  "uploadPdfAndSign no_bucket_env initial_world ''%PDF'' ''p/f.pdf''
     = (initial_world, Inl (JsError ''Error'' ''Missing BUCKET_NAME env var''))
   \<and> snd (post_pdf no_bucket_env initial_world (Some [''template_key'' \<mapsto> JStr ''meal_first'']) Map.empty)
     = \<lparr>status = 500,
        body = JObject [(''ok'', JV (JBool False)),
                        (''error'', JV (JStr ''Missing BUCKET_NAME env var''))]\<rparr>
   \<and> snd (post_pdfs no_bucket_env initial_world None)
     = \<lparr>status = 500,
        body = JObject [(''ok'', JV (JBool False)),
                        (''error'', JV (JStr ''Missing BUCKET_NAME env var''))]\<rparr>
   \<and> saved (fst (post_pdfs no_bucket_env initial_world None)) = []
   \<and> file_save (working_env\<lparr>file_save := \<lambda>n b. Some (JsError ''Error'' ''quota'')\<rparr>) ''p/f.pdf'' ''%PDF''
     = Some (JsError ''Error'' ''quota'')"
proof -
  let ?B = "Some [''template_key'' \<mapsto> JStr ''meal_first'']"
  let ?H = "''<h1>{{client_name}}</h1>''"
  let ?P = "''%PDF <h1></h1>''"
  let ?E = "working_env\<lparr>file_save := \<lambda>n b. Some (JsError ''Error'' ''quota'')\<rparr>"
  have nb: "BUCKET_NAME no_bucket_env = []"
    by (simp add: no_bucket_env_def working_env_def)
  have works: "(\<forall>path. \<exists>text. fs_readFile no_bucket_env path = Inr text)
     \<and> (\<forall>n. chromium_launch no_bucket_env n = None)
     \<and> (\<forall>html. \<exists>buffer. page_pdf no_bucket_env html = Inr buffer)"
    by (simp add: no_bucket_env_def working_env_def)
  have one: "truthy (resolveTemplateKey (body_or_empty ?B) Map.empty)
     \<and> ToString (resolveTemplateKey (body_or_empty ?B) Map.empty) \<in> set template_keys"
    by code_simp
  have many: "\<forall>key\<in>set (keysToGenerate (body_or_empty None)). ToString key \<in> set template_keys"
    by code_simp
  have store: "BUCKET_NAME ?E \<noteq> []
     \<and> snd (uploadPdfAndSign ?E initial_world ''%PDF'' ''p/f.pdf'') = Inl (JsError ''Error'' ''quota'')
     \<and> getSignedUrl ?E ''p/f.pdf'' \<noteq> Inl (JsError ''Error'' ''quota'')"
    by (simp add: working_env_def uploadPdfAndSign_def)
  note a = missing_bucket [where e = no_bucket_env and w = initial_world and buf = "''%PDF''"
      and name = "''p/f.pdf''" and b = ?B and q = Map.empty]
  note b = missing_bucket [where e = no_bucket_env and w = initial_world and b = None]
  note c = missing_bucket [where e = ?E and w = initial_world and buf = "''%PDF''"
      and name = "''p/f.pdf''" and err = "JsError ''Error'' ''quota''"]
  have 1: "uploadPdfAndSign no_bucket_env initial_world ''%PDF'' ''p/f.pdf''
     = (initial_world, Inl (JsError ''Error'' ''Missing BUCKET_NAME env var''))"
    using a [THEN conjunct1] nb by simp
  have 2: "snd (post_pdf no_bucket_env initial_world ?B Map.empty)
     = \<lparr>status = 500,
        body = JObject [(''ok'', JV (JBool False)),
                        (''error'', JV (JStr ''Missing BUCKET_NAME env var''))]\<rparr>"
    using a [THEN conjunct2, THEN conjunct2, THEN conjunct2, THEN conjunct2, THEN conjunct2,
             THEN conjunct1] nb works one
    by blast
  have 3: "snd (post_pdfs no_bucket_env initial_world None)
     = \<lparr>status = 500,
        body = JObject [(''ok'', JV (JBool False)),
                        (''error'', JV (JStr ''Missing BUCKET_NAME env var''))]\<rparr>"
    using b [THEN conjunct2, THEN conjunct2, THEN conjunct2, THEN conjunct2, THEN conjunct2,
             THEN conjunct2] nb works many
    by blast
  have 4: "saved (fst (post_pdfs no_bucket_env initial_world None)) = []"
    using b [THEN conjunct2, THEN conjunct2, THEN conjunct1] nb
    by (simp add: initial_world_def)
  have 5: "file_save ?E ''p/f.pdf'' ''%PDF'' = Some (JsError ''Error'' ''quota'')"
    using c [THEN conjunct2, THEN conjunct1] store by blast
  from 1 2 3 4 5 show ?thesis by (intro conjI)
qed

section \<open>The object key\<close>

text \<open>
  C7, as the code has it. A successful render saves one object, under
  \<open><prefix>/<templateKey>_<name>_<jobId>.pdf\<close>. The job id is the payload's \<open>job_id\<close>
  or, when that is absent or falsy, a fresh UUID; the prefix is the payload's \<open>prefix\<close>
  or, when that is absent or falsy, \<open>pdfs/<UTC timestamp>_<jobId>\<close>. The name is the
  first 80 characters of the lowercased \<open>client_name\<close> with every run of characters
  outside \<open>[a-z0-9]\<close> replaced by a dash and a dash at the start and at the end
  removed, and it is \<open>client\<close> when \<open>client_name\<close> is absent or falsy.
\<close>

theorem object_key_layout:
  assumes "generateOnePdf e w templateKey payload = (w', Inr fl)"
  shows "(let jobId = (if truthy (get_prop payload ''job_id'') then get_prop payload ''job_id''
                       else JStr (randomUUID e (uuids_drawn w)));
              basePrefix = (if truthy (get_prop payload ''prefix'')
                            then ToString (get_prop payload ''prefix'')
                            else ''pdfs/'' @ nowStamp (clock e (clock_reads w)) @ ''_'' @ ToString jobId);
              client_name = get_prop payload ''client_name'';
              sanitized = (if \<not> truthy client_name then ''client''
                           else take 80 (strip_edge_dashes (replace_runs
                                  (toLowerCase (ToString client_name)))));
              fileName = ToString templateKey @ ''_'' @ sanitized @ ''_'' @ ToString jobId @ ''.pdf'';
              objectName = basePrefix @ ''/'' @ fileName
          in map fst (saved w') = map fst (saved w) @ [objectName]
             \<and> field fl ''fileName'' = Some (JV (JStr fileName))
             \<and> field fl ''objectName'' = Some (JV (JStr objectName))
             \<and> field fl ''gcsPath'' = Some (JV (JStr (''gs://'' @ BUCKET_NAME e @ ''/'' @ objectName)))
             \<and> field fl ''job_id'' = Some (JV jobId))"
proof -
  from generateOnePdf_Inr [OF assms]
  obtain htmlRaw w1 pdfBuffer jobId w2 basePrefix w3 gcsPath url where
    h: "htmlToPdfBuffer e w (renderTemplate (new_Date e) htmlRaw payload) = (w1, Inr pdfBuffer)" and
    j: "job_id_of e w1 payload = (jobId, w2)" and
    p: "base_prefix_of e w2 payload jobId = (basePrefix, w3)" and
    u: "uploadPdfAndSign e w3 pdfBuffer
                (ToString basePrefix @ ''/'' @ ToString templateKey @ ''_''
                 @ safeSlug (get_prop payload ''client_name'') @ ''_'' @ ToString jobId @ ''.pdf'')
               = (w', Inr (gcsPath, url))" and
    f: "fl = file_object templateKey jobId (BUCKET_NAME e)
                (ToString templateKey @ ''_'' @ safeSlug (get_prop payload ''client_name'') @ ''_''
                 @ ToString jobId @ ''.pdf'')
                (ToString basePrefix @ ''/'' @ ToString templateKey @ ''_''
                 @ safeSlug (get_prop payload ''client_name'') @ ''_'' @ ToString jobId @ ''.pdf'')
                gcsPath url"
    by blast
  note hf = htmlToPdfBuffer_frame [OF h]
  note jf = job_id_of_frame [OF j]
  note pf = base_prefix_of_frame [OF p]
  note ui = upload_Inr [OF u]
  have jid: "jobId = (if truthy (get_prop payload ''job_id'') then get_prop payload ''job_id''
                       else JStr (randomUUID e (uuids_drawn w)))"
    using j hf by (auto simp: job_id_of_def split: if_splits)
  have cr: "clock_reads w2 = clock_reads w" using jf hf by simp
  have bp: "ToString basePrefix = (if truthy (get_prop payload ''prefix'')
                            then ToString (get_prop payload ''prefix'')
                            else ''pdfs/'' @ nowStamp (clock e (clock_reads w)) @ ''_'' @ ToString jobId)"
    using p cr by (auto simp: base_prefix_of_def split: if_splits)
  have sv: "saved w3 = saved w" using hf jf pf by simp
  show ?thesis
    unfolding Let_def jid [symmetric] bp [symmetric]
    using ui sv f
    by (simp add: file_object_def field_def safeSlug_def)
qed

text \<open>
  The spec's example: \<open>client_name: "Jane Doe"\<close> with the template \<open>meal_first\<close> gives
  the file name \<open>meal_first_jane-doe_<jobId>.pdf\<close>.
\<close>

theorem object_key_layout_witness:
  "generateOnePdf working_env initial_world (JStr ''meal_first'')
     [''template_key'' \<mapsto> JStr ''meal_first'', ''client_name'' \<mapsto> JStr ''Jane Doe'']
   = (\<lparr>browserPromise = Some 0, launches = 1, closed = [], exited = None,
        saved = [(''pdfs/20240102_030400_uuid0/meal_first_jane-doe_uuid0.pdf'', ''%PDF <h1>Jane Doe</h1>'')],
        uuids_drawn = 1, clock_reads = 1\<rparr>,
      Inr (file_object (JStr ''meal_first'') (JStr ''uuid0'') ''bucket''
             ''meal_first_jane-doe_uuid0.pdf''
             ''pdfs/20240102_030400_uuid0/meal_first_jane-doe_uuid0.pdf''
             ''gs://bucket/pdfs/20240102_030400_uuid0/meal_first_jane-doe_uuid0.pdf''
             ''https://signed/pdfs/20240102_030400_uuid0/meal_first_jane-doe_uuid0.pdf''))
   \<and> field (file_object (JStr ''meal_first'') (JStr ''uuid0'') ''bucket''
             ''meal_first_jane-doe_uuid0.pdf''
             ''pdfs/20240102_030400_uuid0/meal_first_jane-doe_uuid0.pdf''
             ''gs://bucket/pdfs/20240102_030400_uuid0/meal_first_jane-doe_uuid0.pdf''
             ''https://signed/pdfs/20240102_030400_uuid0/meal_first_jane-doe_uuid0.pdf'') ''fileName''
     = Some (JV (JStr ''meal_first_jane-doe_uuid0.pdf''))"
proof -
  have g: "generateOnePdf working_env initial_world (JStr ''meal_first'')
     [''template_key'' \<mapsto> JStr ''meal_first'', ''client_name'' \<mapsto> JStr ''Jane Doe'']
   = (\<lparr>browserPromise = Some 0, launches = 1, closed = [], exited = None,
        saved = [(''pdfs/20240102_030400_uuid0/meal_first_jane-doe_uuid0.pdf'', ''%PDF <h1>Jane Doe</h1>'')],
        uuids_drawn = 1, clock_reads = 1\<rparr>,
      Inr (file_object (JStr ''meal_first'') (JStr ''uuid0'') ''bucket''
             ''meal_first_jane-doe_uuid0.pdf''
             ''pdfs/20240102_030400_uuid0/meal_first_jane-doe_uuid0.pdf''
             ''gs://bucket/pdfs/20240102_030400_uuid0/meal_first_jane-doe_uuid0.pdf''
             ''https://signed/pdfs/20240102_030400_uuid0/meal_first_jane-doe_uuid0.pdf''))"
    by code_simp
  show ?thesis
    using object_key_layout [OF g] g by (simp add: file_object_def field_def)
qed

text \<open>
  C7 as stated fails: it leaves out the cut at 80 characters and the default. A
  \<open>client_name\<close> of 81 letters \<open>a\<close> is its own lowercased, dash-replaced and trimmed
  form, but the object key holds only 80 of them; and with no \<open>client_name\<close> the name
  is \<open>client\<close>.
\<close>

theorem long_client_name_counterexample:
  "map fst (saved (fst (post_pdf working_env initial_world
      (Some [''template_key'' \<mapsto> JStr ''meal_first'',
             ''client_name'' \<mapsto> JStr (replicate 81 CHR ''a''),
             ''job_id'' \<mapsto> JStr ''j1'', ''prefix'' \<mapsto> JStr ''p''])
      Map.empty)))
     = [''p/meal_first_'' @ replicate 80 CHR ''a'' @ ''_j1.pdf'']
   \<and> strip_edge_dashes (replace_runs (toLowerCase (replicate 81 CHR ''a''))) = replicate 81 CHR ''a''
   \<and> map fst (saved (fst (post_pdf working_env initial_world
      (Some [''template_key'' \<mapsto> JStr ''meal_first'', ''job_id'' \<mapsto> JStr ''j1'', ''prefix'' \<mapsto> JStr ''p''])
      Map.empty)))
     = [''p/meal_first_client_j1.pdf'']"
  by code_simp

section \<open>The shape of the responses\<close>

lemma obj_set_values: "x \<in> set (obj_set kvs k v) \<Longrightarrow> snd x = v \<or> x \<in> set kvs"
  by (induction kvs k v rule: obj_set.induct) (auto split: if_splits)

lemma obj_set_names:
  "map fst (obj_set kvs k v) = (if k \<in> set (map fst kvs) then map fst kvs else map fst kvs @ [k])"
  by (induction kvs k v rule: obj_set.induct) auto

lemma file_object_names:
  "field_names (file_object k j b fn on g u)
     = [''template_key'', ''job_id'', ''bucket'', ''fileName'', ''objectName'', ''gcsPath'', ''url'']"
  by (simp add: file_object_def field_names_def)

lemma generateOnePdf_names:
  "generateOnePdf e w k p = (w', Inr fl) \<Longrightarrow>
     field_names fl
       = [''template_key'', ''job_id'', ''bucket'', ''fileName'', ''objectName'', ''gcsPath'', ''url'']"
  by (drule generateOnePdf_Inr) (auto simp: file_object_names)

lemma generate_all_names:
  assumes "generate_all e w p keys acc = (w', Inr res)"
    "\<forall>f\<in>snd ` set acc. field_names f
       = [''template_key'', ''job_id'', ''bucket'', ''fileName'', ''objectName'', ''gcsPath'', ''url'']"
  shows "\<forall>f\<in>snd ` set res. field_names f
       = [''template_key'', ''job_id'', ''bucket'', ''fileName'', ''objectName'', ''gcsPath'', ''url'']"
  using assms
proof (induction keys arbitrary: w acc)
  case Nil
  then show ?case by simp
next
  case (Cons k ks)
  from Cons.prems(1) obtain w1 fl where
    g: "generateOnePdf e w k p = (w1, Inr fl)" and
    r: "generate_all e w1 p ks (obj_set acc (ToString k) fl) = (w', Inr res)"
    by (auto split: prod.splits sum.splits)
  have "\<forall>f\<in>snd ` set (obj_set acc (ToString k) fl). field_names f
       = [''template_key'', ''job_id'', ''bucket'', ''fileName'', ''objectName'', ''gcsPath'', ''url'']"
    using obj_set_values [of _ acc "ToString k" fl] Cons.prems(2) generateOnePdf_names [OF g]
    by fastforce
  with Cons.IH [OF r] show ?case by blast
qed

text \<open>
  C6, as the code has it. A 200 response of \<open>POST /pdfs\<close> is
  \<open>{ok: true, job_id, bucket, files}\<close>, the \<open>job_id\<close> being the payload's or \<open>null\<close>.
  Every entry of \<open>files\<close> is what \<open>generateOnePdf\<close> returned, so it has all the
  members of the file object of \<open>POST /pdf\<close>: \<open>template_key\<close>, \<open>job_id\<close> and
  \<open>bucket\<close> are there, followed by \<open>fileName\<close>, \<open>objectName\<close>, \<open>gcsPath\<close> and \<open>url\<close>.
\<close>

theorem response_shapes:
  "(post_pdfs e w b = (w', r) \<and> status r = 200 \<longrightarrow>
      (\<exists>files.
         body r = JObject
           [(''ok'', JV (JBool True)),
            (''job_id'', JV (js_or (get_prop (body_or_empty b) ''job_id'') JNull)),
            (''bucket'', JV (JStr (BUCKET_NAME e))),
            (''files'', JObject files)]
         \<and> (\<forall>f\<in>snd ` set files. field_names f
              = [''template_key'', ''job_id'', ''bucket'', ''fileName'', ''objectName'',
                 ''gcsPath'', ''url''])))
   \<and> (post_pdf e w b q = (w'', r') \<and> status r' = 200 \<longrightarrow>
      (\<exists>f. body r' = JObject [(''ok'', JV (JBool True)), (''file'', f)]
           \<and> field_names f
              = [''template_key'', ''job_id'', ''bucket'', ''fileName'', ''objectName'',
                 ''gcsPath'', ''url'']))"
proof -
  have 1: "\<exists>files.
         body r = JObject
           [(''ok'', JV (JBool True)),
            (''job_id'', JV (js_or (get_prop (body_or_empty b) ''job_id'') JNull)),
            (''bucket'', JV (JStr (BUCKET_NAME e))),
            (''files'', JObject files)]
         \<and> (\<forall>f\<in>snd ` set files. field_names f
              = [''template_key'', ''job_id'', ''bucket'', ''fileName'', ''objectName'',
                 ''gcsPath'', ''url''])"
    if a: "post_pdfs e w b = (w', r)" "status r = 200"
  proof -
    obtain w1 res where g: "generate_all e w (body_or_empty b) (keysToGenerate (body_or_empty b)) [] = (w1, res)"
      by (cases "generate_all e w (body_or_empty b) (keysToGenerate (body_or_empty b)) []")
    show ?thesis
    proof (cases res)
      case (Inl err)
      with a g show ?thesis by (auto simp: post_pdfs_def Let_def error_response_def)
    next
      case (Inr files)
      with g generate_all_names [of e w "body_or_empty b" "keysToGenerate (body_or_empty b)" "[]" w1 files]
      have "\<forall>f\<in>snd ` set files. field_names f
              = [''template_key'', ''job_id'', ''bucket'', ''fileName'', ''objectName'',
                 ''gcsPath'', ''url'']"
        by simp
      with a g Inr show ?thesis by (auto simp: post_pdfs_def Let_def)
    qed
  qed
  have 2: "\<exists>f. body r' = JObject [(''ok'', JV (JBool True)), (''file'', f)]
           \<and> field_names f
              = [''template_key'', ''job_id'', ''bucket'', ''fileName'', ''objectName'',
                 ''gcsPath'', ''url'']"
    if a: "post_pdf e w b q = (w'', r')" "status r' = 200"
    using a generateOnePdf_names [of e w "resolveTemplateKey (body_or_empty b) q" "body_or_empty b"]
    by (auto simp: post_pdf_def Let_def error_response_def split: if_splits prod.splits sum.splits)
  show ?thesis using 1 2 by blast
qed

theorem response_shapes_witness:
  "status (snd (post_pdfs working_env initial_world
      (Some [''template_key'' \<mapsto> JStr ''meal_first'',
             ''template_keys'' \<mapsto> JArr [JStr ''workout_first'', JStr ''meal_first'']]))) = 200
   \<and> field_names (body (snd (post_pdfs working_env initial_world
      (Some [''template_key'' \<mapsto> JStr ''meal_first'',
             ''template_keys'' \<mapsto> JArr [JStr ''workout_first'', JStr ''meal_first'']]))))
     = [''ok'', ''job_id'', ''bucket'', ''files'']
   \<and> status (snd (post_pdf working_env initial_world
      (Some [''template_key'' \<mapsto> JStr ''meal_first'',
             ''template_keys'' \<mapsto> JArr [JStr ''workout_first'', JStr ''meal_first'']]) Map.empty)) = 200
   \<and> field_names (body (snd (post_pdf working_env initial_world
      (Some [''template_key'' \<mapsto> JStr ''meal_first'',
             ''template_keys'' \<mapsto> JArr [JStr ''workout_first'', JStr ''meal_first'']]) Map.empty)))
     = [''ok'', ''file'']"
proof -
  let ?B = "Some [''template_key'' \<mapsto> JStr ''meal_first'',
             ''template_keys'' \<mapsto> JArr [JStr ''workout_first'', JStr ''meal_first'']]"
  have s1: "status (snd (post_pdfs working_env initial_world ?B)) = 200"
    by code_simp
  have s2: "status (snd (post_pdf working_env initial_world ?B Map.empty)) = 200"
    by code_simp
  note t = response_shapes [where e = working_env and w = initial_world and b = ?B
      and w' = "fst (post_pdfs working_env initial_world ?B)"
      and r = "snd (post_pdfs working_env initial_world ?B)"
      and q = Map.empty
      and w'' = "fst (post_pdf working_env initial_world ?B Map.empty)"
      and r' = "snd (post_pdf working_env initial_world ?B Map.empty)"]
  from t s1 s2 show ?thesis
    by (auto simp: field_names_def)
qed

text \<open>
  C6 as stated fails: the entry of \<open>files\<close> holds \<open>template_key\<close>, \<open>job_id\<close> and
  \<open>bucket\<close>.
\<close>

theorem files_entry_counterexample:
  "snd (post_pdfs working_env initial_world
      (Some [''template_keys'' \<mapsto> JArr [JStr ''meal_first''],
             ''job_id'' \<mapsto> JStr ''j1'', ''prefix'' \<mapsto> JStr ''p'']))
   = \<lparr>status = 200,
      body = JObject
        [(''ok'', JV (JBool True)),
         (''job_id'', JV (JStr ''j1'')),
         (''bucket'', JV (JStr ''bucket'')),
         (''files'', JObject
            [(''meal_first'', JObject
               [(''template_key'', JV (JStr ''meal_first'')),
                (''job_id'', JV (JStr ''j1'')),
                (''bucket'', JV (JStr ''bucket'')),
                (''fileName'', JV (JStr ''meal_first_client_j1.pdf'')),
                (''objectName'', JV (JStr ''p/meal_first_client_j1.pdf'')),
                (''gcsPath'', JV (JStr ''gs://bucket/p/meal_first_client_j1.pdf'')),
                (''url'', JV (JStr ''https://signed/p/meal_first_client_j1.pdf''))])])]\<rparr>"
  by code_simp

section \<open>The batch of \<open>POST /pdfs\<close>\<close>

lemma remdups_drop_later: "k \<in> set ys \<Longrightarrow> remdups (xs @ k # ys) = remdups (xs @ ys)"
  by (induction xs) auto

lemma first_occurrences_step:
  "rev (remdups (rev ((if k \<in> set A then A else A @ [k]) @ ks)))
     = rev (remdups (rev (A @ k # ks)))"
  using remdups_drop_later [of k "rev A" "rev ks"] by simp

lemma generateOnePdf_one_upload:
  assumes "generateOnePdf e w k p = (w', Inr fl)"
  shows "field fl ''template_key'' = Some (JV k)
         \<and> (\<exists>name buf. saved w' = saved w @ [(name, buf)]
               \<and> field fl ''objectName'' = Some (JV (JStr name)))"
proof -
  from generateOnePdf_Inr [OF assms]
  obtain htmlRaw w1 pdfBuffer jobId w2 basePrefix w3 gcsPath url name where
    h: "htmlToPdfBuffer e w (renderTemplate (new_Date e) htmlRaw p) = (w1, Inr pdfBuffer)" and
    j: "job_id_of e w1 p = (jobId, w2)" and
    b: "base_prefix_of e w2 p jobId = (basePrefix, w3)" and
    n: "name = ToString basePrefix @ ''/'' @ ToString k @ ''_''
                 @ safeSlug (get_prop p ''client_name'') @ ''_'' @ ToString jobId @ ''.pdf''" and
    u: "uploadPdfAndSign e w3 pdfBuffer name = (w', Inr (gcsPath, url))" and
    f: "fl = file_object k jobId (BUCKET_NAME e)
                (ToString k @ ''_'' @ safeSlug (get_prop p ''client_name'') @ ''_''
                 @ ToString jobId @ ''.pdf'') name gcsPath url"
    by blast
  have "saved w3 = saved w"
    using htmlToPdfBuffer_frame [OF h] job_id_of_frame [OF j] base_prefix_of_frame [OF b] by simp
  with upload_Inr [OF u] f show ?thesis
    by (simp add: file_object_def field_def)
qed

lemma generate_all_order:
  assumes "generate_all e w p keys acc = (w', Inr res)" "distinct (map fst acc)"
  shows "map fst res = rev (remdups (rev (map fst acc @ map ToString keys)))
         \<and> (\<exists>generated.
               map (\<lambda>f. field f ''template_key'') generated = map (\<lambda>k. Some (JV k)) keys
               \<and> map (\<lambda>(name, buf). Some (JV (JStr name))) (drop (length (saved w)) (saved w'))
                   = map (\<lambda>f. field f ''objectName'') generated
               \<and> take (length (saved w)) (saved w') = saved w
               \<and> snd ` set res \<subseteq> snd ` set acc \<union> set generated)"
  using assms
proof (induction keys arbitrary: w acc)
  case Nil
  then show ?case by (auto simp: distinct_remdups_id)
next
  case (Cons k ks)
  from Cons.prems(1) obtain w1 fl where
    g: "generateOnePdf e w k p = (w1, Inr fl)" and
    r: "generate_all e w1 p ks (obj_set acc (ToString k) fl) = (w', Inr res)"
    by (auto split: prod.splits sum.splits)
  let ?acc = "obj_set acc (ToString k) fl"
  have n: "map fst ?acc = (if ToString k \<in> set (map fst acc) then map fst acc else map fst acc @ [ToString k])"
    by (rule obj_set_names)
  have d: "distinct (map fst ?acc)" using Cons.prems(2) n by auto
  from Cons.IH [OF r d] obtain generated where
    keys: "map fst res = rev (remdups (rev (map fst ?acc @ map ToString ks)))" and
    t: "map (\<lambda>f. field f ''template_key'') generated = map (\<lambda>k. Some (JV k)) ks" and
    o: "map (\<lambda>(name, buf). Some (JV (JStr name))) (drop (length (saved w1)) (saved w'))
                   = map (\<lambda>f. field f ''objectName'') generated" and
    s: "take (length (saved w1)) (saved w') = saved w1" and
    v: "snd ` set res \<subseteq> snd ` set ?acc \<union> set generated"
    by blast
  from generateOnePdf_one_upload [OF g] obtain name buf where
    tk: "field fl ''template_key'' = Some (JV k)" and
    sv: "saved w1 = saved w @ [(name, buf)]" and
    on: "field fl ''objectName'' = Some (JV (JStr name))"
    by blast
  have 1: "map fst res = rev (remdups (rev (map fst acc @ map ToString (k # ks))))"
    using keys n first_occurrences_step [of "ToString k" "map fst acc" "map ToString ks"] by simp
  define rest where "rest = drop (length (saved w1)) (saved w')"
  have "saved w' = take (length (saved w1)) (saved w') @ rest"
    unfolding rest_def by simp
  then have rest: "saved w' = saved w @ (name, buf) # rest"
    using s sv by simp
  have 2: "map (\<lambda>f. field f ''template_key'') (fl # generated) = map (\<lambda>k. Some (JV k)) (k # ks)"
    using t tk by simp
  have dr: "drop (length (saved w)) (saved w') = (name, buf) # rest"
    using rest by simp
  have o': "map (\<lambda>(name, buf). Some (JV (JStr name))) rest = map (\<lambda>f. field f ''objectName'') generated"
    using o unfolding rest_def .
  have 3: "map (\<lambda>(name, buf). Some (JV (JStr name))) (drop (length (saved w)) (saved w'))
             = map (\<lambda>f. field f ''objectName'') (fl # generated)"
    unfolding dr using o' on by simp
  have 4: "take (length (saved w)) (saved w') = saved w" using rest by simp
  have 5: "snd ` set res \<subseteq> snd ` set acc \<union> set (fl # generated)"
  proof
    fix y assume "y \<in> snd ` set res"
    with v have "y \<in> snd ` set ?acc \<or> y \<in> set generated" by auto
    then show "y \<in> snd ` set acc \<union> set (fl # generated)"
    proof
      assume "y \<in> snd ` set ?acc"
      then obtain x where x: "x \<in> set ?acc" "y = snd x" by auto
      from obj_set_values [OF x(1)] x(2) show ?thesis by auto
    next
      assume "y \<in> set generated"
      then show ?thesis by simp
    qed
  qed
  show ?case
    apply (rule conjI)
     apply (rule 1)
    apply (rule exI [of _ "fl # generated"])
    apply (intro conjI)
       apply (rule 2)
      apply (rule 3)
     apply (rule 4)
    apply (rule 5)
    done
qed

text \<open>
  C5. In a 200 response of \<open>POST /pdfs\<close> the names of \<open>files\<close> are the keys that were
  generated, as property names, each once and in the order of its first occurrence: so
  they are exactly those keys, and in their order when no key is repeated. The keys are
  generated one after the other in that order: the files generated are for the keys in
  turn, and the objects saved during the request are theirs, in the same order. The keys
  generated are the array \<open>template_keys\<close> when it is given and not empty, and the six
  keys of the template map, in the order of the map, when it is omitted.
\<close>

theorem batch_keys_in_order:
  assumes "post_pdfs e w b = (w', r)" "status r = 200"
  shows "(\<exists>files generated.
            field (body r) ''files'' = Some (JObject files)
            \<and> map fst files = rev (remdups (rev (map ToString (keysToGenerate (body_or_empty b)))))
            \<and> set (map fst files) = set (map ToString (keysToGenerate (body_or_empty b)))
            \<and> (distinct (map ToString (keysToGenerate (body_or_empty b))) \<longrightarrow>
                 map fst files = map ToString (keysToGenerate (body_or_empty b)))
            \<and> map (\<lambda>f. field f ''template_key'') generated
                = map (\<lambda>k. Some (JV k)) (keysToGenerate (body_or_empty b))
            \<and> map (\<lambda>(name, buf). Some (JV (JStr name))) (drop (length (saved w)) (saved w'))
                = map (\<lambda>f. field f ''objectName'') generated
            \<and> take (length (saved w)) (saved w') = saved w
            \<and> snd ` set files \<subseteq> set generated)
         \<and> (\<forall>requested. get_prop (body_or_empty b) ''template_keys'' = JArr requested
                \<and> requested \<noteq> [] \<longrightarrow> keysToGenerate (body_or_empty b) = requested)
         \<and> (get_prop (body_or_empty b) ''template_keys'' = JUndefined \<longrightarrow>
               keysToGenerate (body_or_empty b) = map JStr template_keys)"
proof -
  let ?p = "body_or_empty b"
  let ?keys = "keysToGenerate ?p"
  obtain w1 res where g: "generate_all e w ?p ?keys [] = (w1, res)"
    by (cases "generate_all e w ?p ?keys []")
  from assms g obtain files where
    res: "res = Inr files" and w1: "w1 = w'" and
    fl: "field (body r) ''files'' = Some (JObject files)"
    by (cases res) (auto simp: post_pdfs_def Let_def error_response_def field_def)
  from generate_all_order [of e w ?p ?keys "[]" w' files] g res w1
  obtain generated where
    1: "map fst files = rev (remdups (rev (map ToString ?keys)))" and
    2: "map (\<lambda>f. field f ''template_key'') generated = map (\<lambda>k. Some (JV k)) ?keys" and
    3: "map (\<lambda>(name, buf). Some (JV (JStr name))) (drop (length (saved w)) (saved w'))
          = map (\<lambda>f. field f ''objectName'') generated" and
    4: "take (length (saved w)) (saved w') = saved w" and
    5: "snd ` set files \<subseteq> set generated"
    by auto
  have 6: "set (map fst files) = set (map ToString ?keys)"
    unfolding 1 by simp
  have 7: "distinct (map ToString ?keys) \<longrightarrow> map fst files = map ToString ?keys"
    unfolding 1 by (simp add: distinct_remdups_id)
  have a: "\<exists>files generated.
            field (body r) ''files'' = Some (JObject files)
            \<and> map fst files = rev (remdups (rev (map ToString ?keys)))
            \<and> set (map fst files) = set (map ToString ?keys)
            \<and> (distinct (map ToString ?keys) \<longrightarrow> map fst files = map ToString ?keys)
            \<and> map (\<lambda>f. field f ''template_key'') generated = map (\<lambda>k. Some (JV k)) ?keys
            \<and> map (\<lambda>(name, buf). Some (JV (JStr name))) (drop (length (saved w)) (saved w'))
                = map (\<lambda>f. field f ''objectName'') generated
            \<and> take (length (saved w)) (saved w') = saved w
            \<and> snd ` set files \<subseteq> set generated"
    apply (rule exI [of _ files])
    apply (rule exI [of _ generated])
    apply (intro conjI)
           apply (rule fl)
          apply (rule 1)
         apply (rule 6)
        apply (rule 7)
       apply (rule 2)
      apply (rule 3)
     apply (rule 4)
    apply (rule 5)
    done
  have b: "\<forall>requested. get_prop ?p ''template_keys'' = JArr requested \<and> requested \<noteq> []
             \<longrightarrow> ?keys = requested"
    by (simp add: keysToGenerate_def)
  have c: "get_prop ?p ''template_keys'' = JUndefined \<longrightarrow> ?keys = map JStr template_keys"
    by (simp add: keysToGenerate_def)
  from a b c show ?thesis by (intro conjI)
qed

text \<open>
  The spec's examples, with the keys asked for in another order than the map's:
  \<open>template_keys: ["workout_first", "meal_first"]\<close> gives those two entries in that
  order; no \<open>template_keys\<close> gives the six.
\<close>

theorem batch_keys_in_order_witness:
  "status (snd (post_pdfs working_env initial_world
      (Some [''template_keys'' \<mapsto> JArr [JStr ''workout_first'', JStr ''meal_first''],
             ''job_id'' \<mapsto> JStr ''j1'', ''prefix'' \<mapsto> JStr ''p'']))) = 200
   \<and> map_option field_names (field (body (snd (post_pdfs working_env initial_world
      (Some [''template_keys'' \<mapsto> JArr [JStr ''workout_first'', JStr ''meal_first''],
             ''job_id'' \<mapsto> JStr ''j1'', ''prefix'' \<mapsto> JStr ''p''])))) ''files'')
     = Some [''workout_first'', ''meal_first'']
   \<and> map fst (saved (fst (post_pdfs working_env initial_world
      (Some [''template_keys'' \<mapsto> JArr [JStr ''workout_first'', JStr ''meal_first''],
             ''job_id'' \<mapsto> JStr ''j1'', ''prefix'' \<mapsto> JStr ''p'']))))
     = [''p/workout_first_client_j1.pdf'', ''p/meal_first_client_j1.pdf'']
   \<and> map_option field_names (field (body (snd (post_pdfs working_env initial_world None))) ''files'')
     = Some [''meal_first'', ''meal_weekly'', ''workout_first'', ''workout_weekly'',
             ''bundle_first'', ''bundle_weekly'']"
proof -
  let ?B = "Some [''template_keys'' \<mapsto> JArr [JStr ''workout_first'', JStr ''meal_first''],
             ''job_id'' \<mapsto> JStr ''j1'', ''prefix'' \<mapsto> JStr ''p'']"
  have s1: "status (snd (post_pdfs working_env initial_world ?B)) = 200"
    by code_simp
  have s2: "status (snd (post_pdfs working_env initial_world None)) = 200"
    by code_simp
  have k1: "keysToGenerate (body_or_empty ?B) = [JStr ''workout_first'', JStr ''meal_first'']"
    by code_simp
  have k2: "keysToGenerate (body_or_empty None) = map JStr template_keys"
    by code_simp
  have u: "map fst (saved (fst (post_pdfs working_env initial_world ?B)))
     = [''p/workout_first_client_j1.pdf'', ''p/meal_first_client_j1.pdf'']"
    by code_simp
  have p1: "post_pdfs working_env initial_world ?B
     = (fst (post_pdfs working_env initial_world ?B), snd (post_pdfs working_env initial_world ?B))"
    by simp
  have p2: "post_pdfs working_env initial_world None
     = (fst (post_pdfs working_env initial_world None), snd (post_pdfs working_env initial_world None))"
    by simp
  from batch_keys_in_order [OF p1 s1] obtain files1 where
    f1: "field (body (snd (post_pdfs working_env initial_world ?B))) ''files'' = Some (JObject files1)"
    and n1: "distinct (map ToString (keysToGenerate (body_or_empty ?B))) \<longrightarrow>
             map fst files1 = map ToString (keysToGenerate (body_or_empty ?B))"
    by blast
  from batch_keys_in_order [OF p2 s2] obtain files2 where
    f2: "field (body (snd (post_pdfs working_env initial_world None))) ''files'' = Some (JObject files2)"
    and n2: "distinct (map ToString (keysToGenerate (body_or_empty None))) \<longrightarrow>
             map fst files2 = map ToString (keysToGenerate (body_or_empty None))"
    by blast
  have "map fst files1 = [''workout_first'', ''meal_first'']"
    using n1 unfolding k1 by simp
  moreover have "map fst files2 = [''meal_first'', ''meal_weekly'', ''workout_first'', ''workout_weekly'',
             ''bundle_first'', ''bundle_weekly'']"
    using n2 unfolding k2 by (simp add: template_keys_def)
  ultimately show ?thesis
    using s1 u f1 f2 by (simp add: field_names_def)
qed

section \<open>One browser for the process\<close>

lemma getBrowser_cached: "browserPromise w = Some b \<Longrightarrow> getBrowser w = (b, w)"
  by (simp add: getBrowser_def)

lemma getBrowser_once:
  assumes "launched_once w"
  shows "fst (getBrowser w) = 0 \<and> browserPromise (snd (getBrowser w)) = Some 0
         \<and> launches (snd (getBrowser w)) = 1 \<and> closed (snd (getBrowser w)) = closed w"
  using assms by (auto simp: launched_once_def getBrowser_def)

lemma getBrowser_calls_once:
  "launched_once w \<Longrightarrow>
     fst (getBrowser_calls n w) = replicate n 0
     \<and> launched_once (snd (getBrowser_calls n w))
     \<and> (0 < n \<longrightarrow> launches (snd (getBrowser_calls n w)) = 1)"
proof (induction n arbitrary: w)
  case 0
  then show ?case by simp
next
  case (Suc n)
  obtain b w1 where g: "getBrowser w = (b, w1)" by (cases "getBrowser w")
  with getBrowser_once [OF Suc.prems] have b: "b = 0" and w1: "launched_once w1" "launches w1 = 1"
    by (auto simp: launched_once_def)
  from Suc.IH [OF w1(1)] g b w1(2) show ?case
    by (cases n) (auto split: prod.splits)
qed

lemma htmlToPdfBuffer_once:
  "launched_once w \<Longrightarrow> htmlToPdfBuffer e w html = (w1, r) \<Longrightarrow> launched_once w1"
  using getBrowser_once [of w]
  by (auto simp: htmlToPdfBuffer_def launched_once_def split: prod.splits option.splits)

lemma generateOnePdf_world:
  assumes "generateOnePdf e w k p = (w', r)"
  shows "w' = w \<or> (\<exists>html w1 r1. htmlToPdfBuffer e w html = (w1, r1)
           \<and> browserPromise w' = browserPromise w1 \<and> launches w' = launches w1
           \<and> closed w' = closed w1)"
proof (cases "truthy (get_prop (TEMPLATE_FILES (dirname e)) (ToString k))")
  case False
  with assms show ?thesis by (simp add: generateOnePdf_def Let_def)
next
  case True
  show ?thesis
  proof (cases "readFile e (get_prop (TEMPLATE_FILES (dirname e)) (ToString k))")
    case (Inl err)
    with True assms show ?thesis by (simp add: generateOnePdf_def Let_def)
  next
    case (Inr htmlRaw)
    let ?html = "renderTemplate (new_Date e) htmlRaw p"
    obtain w1 r1 where h: "htmlToPdfBuffer e w ?html = (w1, r1)"
      by (cases "htmlToPdfBuffer e w ?html")
    show ?thesis
    proof (cases r1)
      case (Inl err)
      with True Inr h assms have "w' = w1" by (simp add: generateOnePdf_def Let_def)
      with h show ?thesis by blast
    next
      case pdf: (Inr pdfBuffer)
      obtain jobId w2 where j: "job_id_of e w1 p = (jobId, w2)" by (cases "job_id_of e w1 p")
      obtain basePrefix w3 where b: "base_prefix_of e w2 p jobId = (basePrefix, w3)"
        by (cases "base_prefix_of e w2 p jobId")
      let ?name = "ToString basePrefix @ ''/'' @ (ToString k @ ''_'' @ safeSlug (get_prop p ''client_name'')
                     @ ''_'' @ ToString jobId @ ''.pdf'')"
      obtain w4 r4 where u: "uploadPdfAndSign e w3 pdfBuffer ?name = (w4, r4)"
        by (cases "uploadPdfAndSign e w3 pdfBuffer ?name")
      have "w' = w4"
        using True Inr h pdf j b u assms
        by (cases r4) (auto simp: generateOnePdf_def Let_def)
      with job_id_of_frame [OF j] base_prefix_of_frame [OF b] upload_frame [OF u] h
      show ?thesis by auto
    qed
  qed
qed

lemma generateOnePdf_once:
  assumes "launched_once w" "generateOnePdf e w k p = (w', r)"
  shows "launched_once w' \<and> closed w' = closed w"
proof -
  from generateOnePdf_world [OF assms(2)]
  consider "w' = w" | html w1 r1 where "htmlToPdfBuffer e w html = (w1, r1)"
    "browserPromise w' = browserPromise w1" "launches w' = launches w1" "closed w' = closed w1"
    by blast
  then show ?thesis
  proof cases
    case 1
    with assms show ?thesis by simp
  next
    case 2
    from htmlToPdfBuffer_once [OF assms(1) 2(1)] htmlToPdfBuffer_frame [OF 2(1)] 2(2,3,4)
    show ?thesis by (simp add: launched_once_def)
  qed
qed

lemma generate_all_once:
  "launched_once w \<Longrightarrow> generate_all e w p keys acc = (w', r) \<Longrightarrow>
     launched_once w' \<and> closed w' = closed w"
proof (induction keys arbitrary: w acc)
  case Nil
  then show ?case by simp
next
  case (Cons k ks)
  obtain w1 r1 where g: "generateOnePdf e w k p = (w1, r1)" by (cases "generateOnePdf e w k p")
  note o = generateOnePdf_once [OF Cons.prems(1) g]
  show ?case
  proof (cases r1)
    case (Inl err)
    with g Cons.prems(2) o show ?thesis by simp
  next
    case (Inr fl)
    with g Cons.prems(2) have "generate_all e w1 p ks (obj_set acc (ToString k) fl) = (w', r)"
      by simp
    from Cons.IH [OF _ this] o show ?thesis by simp
  qed
qed

lemma serve_once:
  assumes "launched_once w" "serve e w req = (w', res)"
  shows "launched_once w' \<and> closed w' = closed w"
proof (cases req)
  case (PostPdf b q)
  let ?k = "resolveTemplateKey (body_or_empty b) q"
  obtain w1 r1 where g: "generateOnePdf e w ?k (body_or_empty b) = (w1, r1)"
    by (cases "generateOnePdf e w ?k (body_or_empty b)")
  from assms(2) PostPdf g have "w' = w \<or> w' = w1"
    by (cases r1) (auto simp: post_pdf_def Let_def split: if_splits)
  with generateOnePdf_once [OF assms(1) g] assms(1) show ?thesis by auto
next
  case (PostPdfs b)
  let ?p = "body_or_empty b"
  obtain w1 r1 where g: "generate_all e w ?p (keysToGenerate ?p) [] = (w1, r1)"
    by (cases "generate_all e w ?p (keysToGenerate ?p) []")
  from assms(2) PostPdfs g have "w' = w1"
    by (cases r1) (auto simp: post_pdfs_def Let_def)
  with generate_all_once [OF assms(1) g] show ?thesis by simp
qed

lemma serve_all_once:
  "launched_once w \<Longrightarrow> launched_once (fst (serve_all e w reqs))
     \<and> closed (fst (serve_all e w reqs)) = closed w"
proof (induction reqs arbitrary: w)
  case Nil
  then show ?case by simp
next
  case (Cons r rs)
  obtain w1 res where s: "serve e w r = (w1, res)" by (cases "serve e w r")
  from serve_once [OF Cons.prems s] Cons.IH [of w1] s show ?case
    by (auto split: prod.splits)
qed

text \<open>
  C9. The calls of \<open>getBrowser\<close> in a process, however many, all return the first
  launch, and \<open>chromium.launch\<close> is called once, by the first of them: a call that finds
  a cached launch returns it and launches nothing, so two requests that both come first
  share one launch. Whatever requests the process has served, at most one browser was
  launched; the handler of the termination signals closes the cached browser (when its
  launch succeeded), closes nothing else, and exits with code 0.
\<close>

theorem shared_browser:
  "fst (getBrowser_calls n initial_world) = replicate n 0
   \<and> launches (snd (getBrowser_calls n initial_world)) = (if n = 0 then 0 else 1)
   \<and> (browserPromise w = Some b \<longrightarrow> getBrowser w = (b, w))
   \<and> launches (fst (serve_all e initial_world reqs)) \<le> 1
   \<and> closed (shutdown e (fst (serve_all e initial_world reqs)))
       = (if browserPromise (fst (serve_all e initial_world reqs)) = Some 0
             \<and> chromium_launch e 0 = None
          then [0] else [])
   \<and> (browserPromise w = Some b \<and> chromium_launch e b = None \<longrightarrow>
         closed (shutdown e w) = closed w @ [b])
   \<and> exited (shutdown e w) = Some 0"
proof -
  have i: "launched_once initial_world"
    by (simp add: launched_once_def initial_world_def)
  note c = getBrowser_calls_once [OF i, of n]
  have 1: "fst (getBrowser_calls n initial_world) = replicate n 0" using c by simp
  have 2: "launches (snd (getBrowser_calls n initial_world)) = (if n = 0 then 0 else 1)"
    using c by (cases n) (simp_all add: initial_world_def)
  have 3: "browserPromise w = Some b \<longrightarrow> getBrowser w = (b, w)"
    by (simp add: getBrowser_cached)
  note s = serve_all_once [OF i, of e reqs]
  have 4: "launches (fst (serve_all e initial_world reqs)) \<le> 1"
    using s by (auto simp: launched_once_def)
  have 5: "closed (shutdown e (fst (serve_all e initial_world reqs)))
       = (if browserPromise (fst (serve_all e initial_world reqs)) = Some 0
             \<and> chromium_launch e 0 = None
          then [0] else [])"
    using s by (auto simp: launched_once_def shutdown_def initial_world_def split: option.splits)
  have 6: "browserPromise w = Some b \<and> chromium_launch e b = None \<longrightarrow>
         closed (shutdown e w) = closed w @ [b]"
    by (simp add: shutdown_def)
  have 7: "exited (shutdown e w) = Some 0"
    by (simp add: shutdown_def Let_def split: option.splits)
  from 1 2 3 4 5 6 7 show ?thesis by (intro conjI)
qed

theorem shared_browser_witness:
  "fst (getBrowser_calls 2 initial_world) = [0, 0]
   \<and> launches (snd (getBrowser_calls 2 initial_world)) = 1
   \<and> getBrowser (snd (getBrowser initial_world)) = (0, snd (getBrowser initial_world))
   \<and> closed (shutdown working_env (fst (serve_all working_env initial_world
        [PostPdf (Some [''template_key'' \<mapsto> JStr ''meal_first'']) Map.empty, PostPdfs None]))) = [0]
   \<and> closed (shutdown working_env (snd (getBrowser initial_world))) = [0]"
proof -
  let ?reqs = "[PostPdf (Some [''template_key'' \<mapsto> JStr ''meal_first'']) Map.empty, PostPdfs None]"
  have b: "browserPromise (snd (getBrowser initial_world)) = Some 0
           \<and> closed (snd (getBrowser initial_world)) = []"
    by (simp add: getBrowser_def initial_world_def)
  have l: "chromium_launch working_env 0 = None"
    by (simp add: working_env_def)
  have p: "browserPromise (fst (serve_all working_env initial_world ?reqs)) = Some 0"
    by code_simp
  note t = shared_browser [of 2 "snd (getBrowser initial_world)" 0 working_env ?reqs]
  from t b l p show ?thesis
    by (simp add: numeral_2_eq_2)
qed

end
